theory Spec2Isabelle
  imports Main "HOL-Library.AList" "HOL-Library.Char_ord" "HOL-Library.List_Lexorder"
begin

section \<open>Strings and the regular expressions of the sources\<close>

text \<open>
  A Python \<open>str\<close> is modelled as a \<open>string\<close> whose characters stand for code points
  below 256. On that range \<open>str.lower()\<close> moves \<open>A..Z\<close> and the accented capitals
  \<open>0xC0..0xDE\<close> (without \<open>0xD7\<close>) up by 32, and \<open>\s\<close> of the \<open>re\<close> module accepts
  what \<open>str.isspace()\<close> accepts.
\<close>

definition lower_char :: "char \<Rightarrow> char" where
  "lower_char c =
     (let n = (of_char c :: nat)
      in if (65 \<le> n \<and> n \<le> 90) \<or> (192 \<le> n \<and> n \<le> 222 \<and> n \<noteq> 215)
         then char_of (n + 32) else c)"

definition lower :: "string \<Rightarrow> string" where
  "lower s = map lower_char s"

definition is_space :: "char \<Rightarrow> bool" where
  "is_space c =
     (let n = (of_char c :: nat)
      in (9 \<le> n \<and> n \<le> 13) \<or> (28 \<le> n \<and> n \<le> 32) \<or> n = 133 \<or> n = 160)"

fun join :: "string \<Rightarrow> string list \<Rightarrow> string" where
  "join sep [] = []"
| "join sep [x] = x"
| "join sep (x # y # ys) = x @ sep @ join sep (y # ys)"

text \<open>
  The three patterns of the sources are written with backtracking combinators in
  continuation style, one combinator per construct of the pattern, in the order of the
  pattern. A matcher gets the text that starts at the position tried and returns the
  whole match (group 0) with the captured groups, or \<open>None\<close>. The continuation gets
  the text the construct consumed and the rest.
\<close>

fun first_some :: "('a \<Rightarrow> 'b option) \<Rightarrow> 'a list \<Rightarrow> 'b option" where
  "first_some f [] = None"
| "first_some f (x # xs) = (case f x of Some y \<Rightarrow> Some y | None \<Rightarrow> first_some f xs)"

definition lit :: "string \<Rightarrow> string \<Rightarrow> (string \<Rightarrow> string \<Rightarrow> 'b option) \<Rightarrow> 'b option" where
  \<comment> \<open>a literal, compared exactly\<close>
  "lit l s k = (if take (length l) s = l then k l (drop (length l) s) else None)"

definition lit_ci :: "string \<Rightarrow> string \<Rightarrow> (string \<Rightarrow> string \<Rightarrow> 'b option) \<Rightarrow> 'b option" where
  \<comment> \<open>a literal under \<open>re.IGNORECASE\<close>\<close>
  "lit_ci l s k =
     (if lower (take (length l) s) = lower l
      then k (take (length l) s) (drop (length l) s) else None)"

definition greedy ::
  "(char \<Rightarrow> bool) \<Rightarrow> nat \<Rightarrow> string \<Rightarrow> (string \<Rightarrow> string \<Rightarrow> 'b option) \<Rightarrow> 'b option" where
  \<comment> \<open>\<open>[cls]*\<close> (\<open>lo = 0\<close>) and \<open>[cls]+\<close> (\<open>lo = 1\<close>): the longest run first, then shorter ones\<close>
  "greedy cls lo s k =
     first_some (\<lambda>i. k (take i s) (drop i s)) (rev [lo ..< Suc (length (takeWhile cls s))])"

definition lazy ::
  "(char \<Rightarrow> bool) \<Rightarrow> nat \<Rightarrow> string \<Rightarrow> (string \<Rightarrow> string \<Rightarrow> 'b option) \<Rightarrow> 'b option" where
  \<comment> \<open>\<open>[cls]*?\<close> and \<open>[cls]+?\<close>: the shortest run first, then longer ones\<close>
  "lazy cls lo s k =
     first_some (\<lambda>i. k (take i s) (drop i s)) [lo ..< Suc (length (takeWhile cls s))]"

definition optional ::
  "(char \<Rightarrow> bool) \<Rightarrow> string \<Rightarrow> (string \<Rightarrow> string \<Rightarrow> 'b option) \<Rightarrow> 'b option" where
  \<comment> \<open>\<open>[cls]?\<close>: one character first, then none\<close>
  "optional cls s k =
     first_some (\<lambda>i. k (take i s) (drop i s)) (rev [0 ..< Suc (min 1 (length (takeWhile cls s)))])"

text \<open>
  \<open>finditer\<close> scans from left to right; after a match it goes on behind the match
  (\<open>skip\<close> counts the characters of the match still to pass). None of the three
  patterns matches the empty text.
\<close>

fun finditer :: "(string \<Rightarrow> (string \<times> 'g) option) \<Rightarrow> nat \<Rightarrow> string \<Rightarrow> (string \<times> 'g) list" where
  "finditer re skip [] = []"
| "finditer re (Suc n) (c # cs) = finditer re n cs"
| "finditer re 0 (c # cs) =
     (case re (c # cs) of
        Some (g0, g) \<Rightarrow> (g0, g) # finditer re (length g0 - 1) cs
      | None \<Rightarrow> finditer re 0 cs)"

section \<open>Schema model (model\_from\_yaml.py)\<close>

text \<open>\<open>TEMPLATE_FIELD_RE = \{\{([#/^]?)([^}]+?)\}\}\<close>; the groups are the prefix and the name.\<close>

definition TEMPLATE_FIELD_RE :: "string \<Rightarrow> (string \<times> string \<times> string) option" where
  "TEMPLATE_FIELD_RE s =
     lit ''{{'' s (\<lambda>m0 s1.
     optional (\<lambda>c. c \<in> set ''#/^'') s1 (\<lambda>g1 s2.
     lazy (\<lambda>c. c \<noteq> CHR ''}'') 1 s2 (\<lambda>g2 s3.
     lit ''}}'' s3 (\<lambda>m1 s4.
     Some (m0 @ g1 @ g2 @ m1, g1, g2)))))"

record AnkiField =
  field_name :: string

record AnkiTemplate =
  template_name :: string
  qfmt :: string
  afmt :: string

record AnkiModelDefinition =
  model_id :: int
  model_name :: string
  model_fields :: "AnkiField list"
  templates :: "AnkiTemplate list"
  yaml_field_map :: "(string \<times> string) list option"
  css :: string

text \<open>
  \<open>yaml_field_map\<close> is a Python dict: an association list in insertion order, read with
  \<open>map_of\<close>. A pydantic \<open>ValidationError\<close> carries the list of the errors found: the
  field validators all run and their errors are collected; the model validators run
  only when no field validator failed, in the order of their definition, and the first to
  raise ends validation. The sets printed in the messages are lists here, in the order
  of first occurrence (Python prints a set in an order of its own).
\<close>

datatype fmt_side = Qfmt | Afmt

datatype validation_error =
    EmptyList string
  | NonPositiveId
  | UndefinedTemplateFields string fmt_side "string list"
  | NoDefaultMapping
  | UndefinedMappedFields "string list"

definition BUILTIN_FIELDS :: "string list" where
  "BUILTIN_FIELDS = [''FrontSide'', ''Tags'', ''Type'', ''Deck'', ''Subdeck'', ''Card'']"

definition check_not_empty :: "string \<Rightarrow> 'a list \<Rightarrow> validation_error list" where
  "check_not_empty what v = (if v = [] then [EmptyList what] else [])"

definition check_id_positive :: "int \<Rightarrow> validation_error list" where
  "check_id_positive v = (if v \<le> 0 then [NonPositiveId] else [])"

definition template_refs :: "string \<Rightarrow> string list" where
  \<comment> \<open>\<open>{match.group(2) for match in TEMPLATE_FIELD_RE.finditer(fmt)}\<close>\<close>
  "template_refs fmt = remdups (map (\<lambda>(g0, g1, g2). g2) (finditer TEMPLATE_FIELD_RE 0 fmt))"

definition missing_fields :: "string list \<Rightarrow> string \<Rightarrow> string list" where
  "missing_fields names fmt =
     filter (\<lambda>n. n \<notin> set BUILTIN_FIELDS \<and> n \<notin> set names) (template_refs fmt)"

fun check_templates :: "string list \<Rightarrow> AnkiTemplate list \<Rightarrow> validation_error option" where
  "check_templates names [] = None"
| "check_templates names (t # ts) =
     (if missing_fields names (qfmt t) \<noteq> []
      then Some (UndefinedTemplateFields (template_name t) Qfmt (missing_fields names (qfmt t)))
      else if missing_fields names (afmt t) \<noteq> []
      then Some (UndefinedTemplateFields (template_name t) Afmt (missing_fields names (afmt t)))
      else check_templates names ts)"

definition check_template_fields_exist ::
  "AnkiModelDefinition \<Rightarrow> validation_error + AnkiModelDefinition" where
  "check_template_fields_exist m =
     (if model_fields m = [] then Inr m
      else case check_templates (map field_name (model_fields m)) (templates m) of
             Some e \<Rightarrow> Inl e
           | None \<Rightarrow> Inr m)"

definition default_yaml_field_map :: "AnkiField list \<Rightarrow> (string \<times> string) list" where
  "default_yaml_field_map fs =
     [(''q'', field_name (fs ! 0)), (''a'', field_name (fs ! 1))] @
     (case find (\<lambda>f. lower (field_name f) = ''tags'') fs of
        Some f \<Rightarrow> [(''tags'', field_name f)]
      | None \<Rightarrow> [])"

definition set_default_yaml_field_map ::
  "AnkiModelDefinition \<Rightarrow> validation_error + AnkiModelDefinition" where
  "set_default_yaml_field_map m =
     (case (case yaml_field_map m of
              Some ym \<Rightarrow> Inr ym
            | None \<Rightarrow>
                if 2 \<le> length (model_fields m)
                then Inr (default_yaml_field_map (model_fields m))
                else Inl NoDefaultMapping) of
        Inl e \<Rightarrow> Inl e
      | Inr ym \<Rightarrow>
          (let missing_mapped =
                 filter (\<lambda>n. n \<notin> set (map field_name (model_fields m))) (remdups (map snd ym))
           in if missing_mapped \<noteq> [] then Inl (UndefinedMappedFields missing_mapped)
              else Inr (m\<lparr>yaml_field_map := Some ym\<rparr>)))"

definition model_validate :: "AnkiModelDefinition \<Rightarrow> validation_error list + AnkiModelDefinition" where
  "model_validate m =
     (let field_errors =
            check_id_positive (model_id m) @
            check_not_empty ''fields'' (model_fields m) @
            check_not_empty ''templates'' (templates m)
      in if field_errors \<noteq> [] then Inl field_errors
         else case check_template_fields_exist m of
                Inl e \<Rightarrow> Inl [e]
              | Inr m1 \<Rightarrow>
                  (case set_default_yaml_field_map m1 of
                     Inl e \<Rightarrow> Inl [e]
                   | Inr m2 \<Rightarrow> Inr m2))"

section \<open>Deck names (main.py)\<close>

text \<open>
  An absolute \<open>pathlib.Path\<close> is the list of its components below the anchor \<open>/\<close>.
  \<open>relative_to\<close> raises \<open>ValueError\<close> when the path is not below the other one.
\<close>

type_synonym path = "string list"

datatype py_error = ValueError | TypeError

definition path_name :: "path \<Rightarrow> string" where
  "path_name p = (if p = [] then [] else last p)"

definition path_parent :: "path \<Rightarrow> path" where
  "path_parent p = butlast p"

definition relative_to :: "path \<Rightarrow> path \<Rightarrow> py_error + path" where
  "relative_to p root = (if take (length root) p = root then Inr (drop (length root) p) else Inl ValueError)"

definition str_relative :: "path \<Rightarrow> string" where
  \<comment> \<open>\<open>str\<close> of a relative path\<close>
  "str_relative p = (if p = [] then ''.'' else join ''/'' p)"

definition calculate_deck_name :: "path \<Rightarrow> path \<Rightarrow> py_error + string" where
  "calculate_deck_name root_dir filepath =
     (case relative_to filepath root_dir of
        Inl e \<Rightarrow> Inl e
      | Inr relative_path \<Rightarrow>
          (let parts = path_name root_dir # butlast relative_path
           in Inr (if parts \<noteq> [] then join ''::'' parts else path_name root_dir)))"

section \<open>Card extraction (main.py)\<close>

text \<open>
  What \<open>yaml.safe_load\<close> returns. \<open>YOther\<close> stands for the scalars the extractor
  only ever passes to \<open>str\<close> (floats, dates, bytes), named by an opaque tag. A mapping is
  the list of its entries; the extractor reads it with string keys only.
\<close>

datatype yaml_value =
    YNull
  | YBool bool
  | YInt int
  | YStr string
  | YOther string
  | YSeq "yaml_value list"
  | YMap "(yaml_value \<times> yaml_value) list"

text \<open>
  The world outside the program: PyYAML (\<open>None\<close> is a \<open>YAMLError\<close>), the builtin
  \<open>str\<close> on values that are neither \<open>None\<close> nor a \<open>str\<close>, and the file system
  (\<open>resolve env dir src\<close> is \<open>(dir / Path(src)).resolve()\<close>, \<open>None\<close> when it raises;
  \<open>read_text\<close> is \<open>None\<close> when reading raises).
\<close>

record env =
  safe_load :: "string \<Rightarrow> yaml_value option"
  py_str :: "yaml_value \<Rightarrow> string"
  resolve :: "path \<Rightarrow> string \<Rightarrow> path option"
  is_file :: "path \<Rightarrow> bool"
  read_text :: "path \<Rightarrow> string option"

definition str_of :: "env \<Rightarrow> yaml_value \<Rightarrow> string" where
  \<comment> \<open>\<open>str(v)\<close>, which is also what an f-string prints for \<open>{v}\<close>\<close>
  "str_of env v = (case v of YStr s \<Rightarrow> s | YNull \<Rightarrow> ''None'' | _ \<Rightarrow> py_str env v)"

definition fmt_optional :: "string option \<Rightarrow> string" where
  \<comment> \<open>an f-string on the result of \<open>dict.get\<close> without default: a missing key prints \<open>None\<close>\<close>
  "fmt_optional v = (case v of Some s \<Rightarrow> s | None \<Rightarrow> ''None'')"

definition dict_get :: "(yaml_value \<times> yaml_value) list \<Rightarrow> string \<Rightarrow> yaml_value \<Rightarrow> yaml_value" where
  \<comment> \<open>\<open>d.get(key, default)\<close>\<close>
  "dict_get d key dflt = (case map_of d (YStr key) of Some v \<Rightarrow> v | None \<Rightarrow> dflt)"

definition str_absolute :: "path \<Rightarrow> string" where
  "str_absolute p = (if p = [] then ''/'' else concat (map (\<lambda>c. ''/'' @ c) p))"

definition dquote :: char where
  "dquote = CHR 0x22"

definition newline :: char where
  "newline = CHR 0x0A"

text \<open>\<open>ANKI_BLOCK_RE = ```anki\s*\n(.*?)\n```\<close> with \<open>re.DOTALL | re.IGNORECASE\<close>.\<close>

definition ANKI_BLOCK_RE :: "string \<Rightarrow> (string \<times> string) option" where
  "ANKI_BLOCK_RE s =
     lit_ci ''```anki'' s (\<lambda>m0 s1.
     greedy is_space 0 s1 (\<lambda>ws s2.
     lit [newline] s2 (\<lambda>nl s3.
     lazy (\<lambda>c. True) 0 s3 (\<lambda>g1 s4.
     lit (newline # ''```'') s4 (\<lambda>m1 s5.
     Some (m0 @ ws @ nl @ g1 @ m1, g1))))))"

text \<open>
  \<open>IMG_SRC_RE = <img\s+[^>]*src="(?!https?://|data:)([^"]+)"[^>]*>\<close> with
  \<open>re.IGNORECASE\<close>; \<open>remote_src\<close> is what the negative lookahead refuses.
\<close>

definition remote_src :: "string \<Rightarrow> bool" where
  "remote_src s =
     (lit_ci ''http'' s (\<lambda>m0 s1.
        optional (\<lambda>c. lower_char c = CHR ''s'') s1 (\<lambda>m1 s2.
        lit_ci ''://'' s2 (\<lambda>m2 s3. Some ()))) \<noteq> None
      \<or> lit_ci ''data:'' s (\<lambda>m0 s1. Some ()) \<noteq> None)"

definition IMG_SRC_RE :: "string \<Rightarrow> (string \<times> string) option" where
  "IMG_SRC_RE s =
     lit_ci ''<img'' s (\<lambda>m0 s1.
     greedy is_space 1 s1 (\<lambda>ws s2.
     greedy (\<lambda>c. c \<noteq> CHR ''>'') 0 s2 (\<lambda>pre s3.
     lit_ci (''src='' @ [dquote]) s3 (\<lambda>m1 s4.
     if remote_src s4 then None else
     greedy (\<lambda>c. c \<noteq> dquote) 1 s4 (\<lambda>g1 s5.
     lit [dquote] s5 (\<lambda>m2 s6.
     greedy (\<lambda>c. c \<noteq> CHR ''>'') 0 s6 (\<lambda>post s7.
     lit ''>'' s7 (\<lambda>m3 s8.
     Some (m0 @ ws @ pre @ m1 @ g1 @ m2 @ post @ m3, g1)))))))))"

fun replace_first :: "string \<Rightarrow> string \<Rightarrow> string \<Rightarrow> string" where
  \<comment> \<open>\<open>s.replace(old, new, 1)\<close>\<close>
  "replace_first old new [] = (if old = [] then new else [])"
| "replace_first old new (c # cs) =
     (if take (length old) (c # cs) = old then new @ drop (length old) (c # cs)
      else c # replace_first old new cs)"

text \<open>
  \<open>re.sub\<close> with a function: the text outside the matches is kept, each match is
  replaced by what the function returns, and what the function records on the side is
  collected in the order of the matches. The function may raise (\<open>None\<close>).
\<close>

fun sub ::
  "(string \<Rightarrow> (string \<times> 'g) option) \<Rightarrow> (string \<Rightarrow> 'g \<Rightarrow> (string \<times> 'e list) option) \<Rightarrow>
   nat \<Rightarrow> string \<Rightarrow> (string \<times> 'e list) option" where
  "sub re repl skip [] = Some ([], [])"
| "sub re repl (Suc n) (c # cs) = sub re repl n cs"
| "sub re repl 0 (c # cs) =
     (case re (c # cs) of
        None \<Rightarrow> map_option (\<lambda>(out, eff). (c # out, eff)) (sub re repl 0 cs)
      | Some (g0, g) \<Rightarrow>
          (case repl g0 g of
             None \<Rightarrow> None
           | Some (new, e) \<Rightarrow>
               map_option (\<lambda>(out, eff). (new @ out, e @ eff)) (sub re repl (length g0 - 1) cs)))"

definition replace_src :: "env \<Rightarrow> path \<Rightarrow> string \<Rightarrow> string \<Rightarrow> (string \<times> string list) option" where
  "replace_src env md_file_dir tag original_src =
     (case resolve env md_file_dir original_src of
        None \<Rightarrow> None
      | Some absolute_img_path \<Rightarrow>
          if is_file env absolute_img_path
          then Some (replace_first (''src='' @ [dquote] @ original_src @ [dquote])
                                   (''src='' @ [dquote] @ path_name absolute_img_path @ [dquote]) tag,
                     [str_absolute absolute_img_path])
          else Some (tag, []))"

text \<open>
  The media of a field are \<open>list(set(found))\<close>: each path once, in an order Python does
  not fix. The model keeps the order of first occurrence; the theorems speak of the set.
\<close>

definition process_field_for_images :: "env \<Rightarrow> string \<Rightarrow> path \<Rightarrow> (string \<times> string list) option" where
  "process_field_for_images env field_content md_file_dir =
     map_option (\<lambda>(processed_content, found_media_in_field).
                   (processed_content, remdups found_media_in_field))
       (sub IMG_SRC_RE (replace_src env md_file_dir) 0 field_content)"

record card =
  card_fields :: "(string \<times> string) list"
  card_tags :: yaml_value
  card_deck :: yaml_value
  guid_basis :: string

text \<open>
  The loop over \<open>yaml_field_map.items()\<close>: it leaves by \<open>break\<close> at a key the block does
  not have (\<open>MissingKey\<close>), by an exception of the image processing (\<open>Raised\<close>), or at
  its end with the fields and the media of the card.
\<close>

datatype loop_outcome = MissingKey | Raised | Populated "(string \<times> string) list" "string list"

fun field_loop ::
  "env \<Rightarrow> path \<Rightarrow> (yaml_value \<times> yaml_value) list \<Rightarrow> (string \<times> string) list \<Rightarrow>
   (string \<times> string) list \<Rightarrow> string list \<Rightarrow> loop_outcome" where
  "field_loop env md_dir raw_card_data [] cfields cmedia = Populated cfields cmedia"
| "field_loop env md_dir raw_card_data ((yaml_key, fname) # rest) cfields cmedia =
     (if yaml_key = ''tags'' then field_loop env md_dir raw_card_data rest cfields cmedia
      else
        (let field_content_raw = dict_get raw_card_data yaml_key YNull
         in if field_content_raw = YNull then MissingKey
            else case process_field_for_images env (str_of env field_content_raw) md_dir of
                   None \<Rightarrow> Raised
                 | Some (processed_content, media) \<Rightarrow>
                     field_loop env md_dir raw_card_data rest
                       (AList.update fname processed_content cfields) (cmedia @ media)))"

text \<open>
  The body of the loop over the blocks: \<open>None\<close> when the block is skipped (by
  \<open>continue\<close> or by one of the two \<open>except\<close> clauses, which log and go on), else
  the card and its media. A \<open>yaml_field_map\<close> that is \<open>None\<close> raises at \<open>.items()\<close>.
  The statement under \<open>if tags_field_name and card_tags\<close> is \<open>pass\<close>.
\<close>

definition process_block ::
  "env \<Rightarrow> path \<Rightarrow> string \<Rightarrow> string \<Rightarrow> string option \<Rightarrow> AnkiModelDefinition \<Rightarrow> string \<Rightarrow>
   (card \<times> string list) option" where
  "process_block env md_dir relative_filepath default_deck_name source_file_field_name model_def
     yaml_content =
     (case safe_load env yaml_content of
        None \<Rightarrow> None
      | Some (YMap raw_card_data) \<Rightarrow>
          (case yaml_field_map model_def of
             None \<Rightarrow> None
           | Some ym \<Rightarrow>
               (case field_loop env md_dir raw_card_data ym [] [] of
                  MissingKey \<Rightarrow> None
                | Raised \<Rightarrow> None
                | Populated cfields cmedia \<Rightarrow>
                    (let cfields' =
                           (case source_file_field_name of
                              None \<Rightarrow> cfields
                            | Some n \<Rightarrow>
                                if n = [] then cfields
                                else AList.update n relative_filepath cfields);
                         deck = dict_get raw_card_data ''deck'' (YStr default_deck_name)
                     in Some
                          (\<lparr>card_fields = cfields',
                            card_tags = dict_get raw_card_data ''tags'' (YSeq []),
                            card_deck = deck,
                            guid_basis =
                              fmt_optional (map_of cfields'
                                 (case map_of ym ''q'' of Some n \<Rightarrow> n | None \<Rightarrow> [])) @ ''|'' @
                              fmt_optional (map_of cfields'
                                 (case map_of ym ''a'' of Some n \<Rightarrow> n | None \<Rightarrow> [])) @ ''|'' @
                              str_of env deck @ ''|'' @ relative_filepath\<rparr>,
                           cmedia))))
      | Some _ \<Rightarrow> None)"

fun block_loop ::
  "(string \<Rightarrow> (card \<times> string list) option) \<Rightarrow> string list \<Rightarrow> card list \<Rightarrow> string list \<Rightarrow>
   card list \<times> string list" where
  "block_loop body [] cards all_media = (cards, all_media)"
| "block_loop body (yaml_content # rest) cards all_media =
     (case body yaml_content of
        None \<Rightarrow> block_loop body rest cards all_media
      | Some (c, cmedia) \<Rightarrow> block_loop body rest (cards @ [c]) (all_media @ cmedia))"

text \<open>
  \<open>calculate_deck_name\<close> and \<open>relative_to\<close> are called before the \<open>try\<close>: their
  \<open>ValueError\<close> reaches the caller. Everything else is caught.
\<close>

definition find_anki_cards_in_file ::
  "env \<Rightarrow> path \<Rightarrow> path \<Rightarrow> AnkiModelDefinition \<Rightarrow> py_error + (card list \<times> string list)" where
  "find_anki_cards_in_file env filepath root_dir model_def =
     (case calculate_deck_name root_dir filepath of
        Inl e \<Rightarrow> Inl e
      | Inr default_deck_name \<Rightarrow>
          (case relative_to filepath root_dir of
             Inl e \<Rightarrow> Inl e
           | Inr rel \<Rightarrow>
               (let md_dir = path_parent filepath;
                    relative_filepath = str_relative rel;
                    source_file_field_name =
                      map_option field_name
                        (find (\<lambda>f. lower (field_name f) = ''sourcefile'') (model_fields model_def))
                in case read_text env filepath of
                     None \<Rightarrow> Inr ([], [])
                   | Some content \<Rightarrow>
                       (case block_loop
                               (process_block env md_dir relative_filepath default_deck_name
                                  source_file_field_name model_def)
                               (map snd (finditer ANKI_BLOCK_RE 0 content)) [] [] of
                          (cards, all_media) \<Rightarrow> Inr (cards, remdups all_media)))))"

section \<open>Package builder (model.py, main.py)\<close>

record genanki_model =
  gm_id :: int
  gm_name :: string
  gm_fields :: "string list"
  gm_templates :: "(string \<times> string \<times> string) list"
  gm_css :: string

definition create_genanki_model :: "AnkiModelDefinition \<Rightarrow> genanki_model" where
  "create_genanki_model model_def =
     \<lparr>gm_id = model_id model_def,
      gm_name = model_name model_def,
      gm_fields = map field_name (model_fields model_def),
      gm_templates = map (\<lambda>t. (template_name t, qfmt t, afmt t)) (templates model_def),
      gm_css = css model_def\<rparr>"

record genanki_note =
  note_fields :: "string list"
  note_guid :: string
  note_tags :: yaml_value

record genanki_deck =
  deck_id :: int
  deck_name :: yaml_value
  deck_notes :: "genanki_note list"

text \<open>
  The archive sink and the interpreter: the builtin \<open>hash\<close>, the equality of dict keys
  (\<open>same_key\<close>, Python's \<open>==\<close> together with the hash), \<open>genanki.guid_for\<close>, whether
  \<open>genanki.Note(...)\<close> and \<open>add_note\<close> go through, and whether \<open>genanki.Package(...)\<close>
  and \<open>write_to_file\<close> go through. A list and a dict cannot be a dict key: looking one up
  raises \<open>TypeError\<close>, which the builder does not catch.
\<close>

record sink =
  py_hash :: "yaml_value \<Rightarrow> int"
  same_key :: "yaml_value \<Rightarrow> yaml_value \<Rightarrow> bool"
  guid_for :: "string \<Rightarrow> string"
  note_accepted :: "genanki_note \<Rightarrow> bool"
  write_accepted :: "genanki_deck list \<Rightarrow> string list \<Rightarrow> string \<Rightarrow> bool"

definition hashable :: "yaml_value \<Rightarrow> bool" where
  "hashable v = (case v of YSeq xs \<Rightarrow> False | YMap kvs \<Rightarrow> False | _ \<Rightarrow> True)"

definition ordered_fields :: "string list \<Rightarrow> card \<Rightarrow> string list" where
  \<comment> \<open>\<open>[str(card_data["fields"].get(name, "")) for name in model_field_names]\<close>\<close>
  "ordered_fields model_field_names card_data =
     map (\<lambda>name. case map_of (card_fields card_data) name of Some v \<Rightarrow> v | None \<Rightarrow> [])
       model_field_names"

fun add_note :: "sink \<Rightarrow> yaml_value \<Rightarrow> genanki_note \<Rightarrow> genanki_deck list \<Rightarrow> genanki_deck list" where
  \<comment> \<open>\<open>decks[deck_name].add_note(note)\<close>\<close>
  "add_note snk name n [] = []"
| "add_note snk name n (d # ds) =
     (if same_key snk name (deck_name d) then d\<lparr>deck_notes := deck_notes d @ [n]\<rparr> # ds
      else d # add_note snk name n ds)"

fun card_loop ::
  "sink \<Rightarrow> int \<Rightarrow> string list \<Rightarrow> card list \<Rightarrow> genanki_deck list \<Rightarrow> py_error + genanki_deck list" where
  "card_loop snk deck_id_base model_field_names [] decks = Inr decks"
| "card_loop snk deck_id_base model_field_names (card_data # rest) decks =
     (let name = card_deck card_data
      in if \<not> hashable name then Inl TypeError
         else
           (let decks1 =
                  (if \<not> (\<exists>d \<in> set decks. same_key snk name (deck_name d))
                   then decks @
                          [\<lparr>deck_id = deck_id_base + \<bar>py_hash snk name\<bar> mod 100000000,
                            deck_name = name, deck_notes = []\<rparr>]
                   else decks);
                n = \<lparr>note_fields = ordered_fields model_field_names card_data,
                     note_guid = guid_for snk (guid_basis card_data),
                     note_tags = card_tags card_data\<rparr>
            in card_loop snk deck_id_base model_field_names rest
                 (if note_accepted snk n then add_note snk name n decks1 else decks1)))"

text \<open>
  What the builder leaves behind: nothing (after the warning that no cards were found),
  a package written to the output file, or a failed write (logged, not raised).
\<close>

datatype package_result =
    NoPackage
  | PackageWritten "genanki_deck list" "string list" string
  | WriteFailed

definition generate_anki_package ::
  "sink \<Rightarrow> card list \<Rightarrow> string list \<Rightarrow> genanki_model \<Rightarrow> string \<Rightarrow> py_error + package_result" where
  "generate_anki_package snk card_data_list media_files anki_model output_filename =
     (let deck_id_base = 2000000000 + \<bar>py_hash snk (YStr (gm_name anki_model))\<bar> mod 500000000
      in case card_loop snk deck_id_base (gm_fields anki_model) card_data_list [] of
           Inl e \<Rightarrow> Inl e
         | Inr decks \<Rightarrow>
             if decks = [] then Inr NoPackage
             else
               (let unique_media_files = sort (remdups media_files)
                in if write_accepted snk decks unique_media_files output_filename
                   then Inr (PackageWritten decks unique_media_files output_filename)
                   else Inr WriteFailed))"

definition main_generate ::
  "sink \<Rightarrow> card list \<Rightarrow> string list \<Rightarrow> genanki_model \<Rightarrow> string \<Rightarrow> py_error + package_result" where
  \<comment> \<open>the last step of \<open>_main\<close>: the builder is called only when there are cards\<close>
  "main_generate snk all_cards all_media anki_model output_file =
     (if all_cards \<noteq> [] then generate_anki_package snk all_cards all_media anki_model output_file
      else Inr NoPackage)"

section \<open>Spec-side notions and example inputs\<close>

definition undefined_refs :: "AnkiModelDefinition \<Rightarrow> string \<Rightarrow> string set" where
  \<comment> \<open>the names a format string refers to that are neither built in nor declared\<close>
  "undefined_refs m fmt =
     {n \<in> set (template_refs fmt). n \<notin> set BUILTIN_FIELDS \<and> n \<notin> field_name ` set (model_fields m)}"

definition tags_model :: AnkiModelDefinition where
  "tags_model =
     \<lparr>model_id = 123, model_name = ''Model with Tags'',
      model_fields = [\<lparr>field_name = ''Question''\<rparr>, \<lparr>field_name = ''Answer''\<rparr>,
                      \<lparr>field_name = ''Tags''\<rparr>],
      templates = [\<lparr>template_name = ''Card 1'', qfmt = ''{{Question}}'', afmt = ''{{Answer}}''\<rparr>],
      yaml_field_map = None, css = ''''\<rparr>"

definition single_field_model :: AnkiModelDefinition where
  "single_field_model =
     \<lparr>model_id = 123, model_name = ''Single Field Model'',
      model_fields = [\<lparr>field_name = ''OnlyField''\<rparr>],
      templates = [\<lparr>template_name = ''Card 1'', qfmt = ''{{OnlyField}}'', afmt = ''{{OnlyField}}''\<rparr>],
      yaml_field_map = None, css = ''''\<rparr>"

definition undefined_field_model :: AnkiModelDefinition where
  "undefined_field_model =
     \<lparr>model_id = 123, model_name = ''Invalid Model'',
      model_fields = [\<lparr>field_name = ''Question''\<rparr>],
      templates = [\<lparr>template_name = ''Card 1'', qfmt = ''{{Question}}'',
                    afmt = ''{{UndefinedField}}''\<rparr>],
      yaml_field_map = None, css = ''''\<rparr>"

definition builtin_fields_model :: AnkiModelDefinition where
  "builtin_fields_model =
     \<lparr>model_id = 123, model_name = ''Valid Model'',
      model_fields = [\<lparr>field_name = ''Question''\<rparr>, \<lparr>field_name = ''Answer''\<rparr>],
      templates = [\<lparr>template_name = ''Card 1'', qfmt = ''{{Question}}'',
                    afmt = ''{{FrontSide}}<hr>{{Answer}}<br>{{Tags}}''\<rparr>],
      yaml_field_map = None, css = ''''\<rparr>"

definition two_undefined_model :: AnkiModelDefinition where
  "two_undefined_model =
     \<lparr>model_id = 123, model_name = ''Invalid Model'',
      model_fields = [\<lparr>field_name = ''Question''\<rparr>],
      templates = [\<lparr>template_name = ''Card 1'', qfmt = ''{{X}}'', afmt = ''{{Y}}''\<rparr>],
      yaml_field_map = None, css = ''''\<rparr>"

definition built_note :: "sink \<Rightarrow> string list \<Rightarrow> card \<Rightarrow> genanki_note" where
  \<comment> \<open>the note the builder constructs for a record\<close>
  "built_note snk names c =
     \<lparr>note_fields = ordered_fields names c,
      note_guid = guid_for snk (guid_basis c),
      note_tags = card_tags c\<rparr>"

definition all_notes :: "genanki_deck list \<Rightarrow> genanki_note set" where
  "all_notes ds = (\<Union>d \<in> set ds. set (deck_notes d))"

definition example_sink :: sink where
  "example_sink =
     \<lparr>py_hash = (\<lambda>v. 0), same_key = (\<lambda>a b. a = b), guid_for = (\<lambda>s. s),
      note_accepted = (\<lambda>n. True), write_accepted = (\<lambda>decks media out. True)\<rparr>"

definition example_genanki_model :: genanki_model where
  "example_genanki_model =
     \<lparr>gm_id = 1234567890, gm_name = ''Test Model'',
      gm_fields = [''Question'', ''Answer'', ''SourceFile''],
      gm_templates = [(''Card 1'', ''{{Question}}'', ''{{Question}}<hr>{{Answer}}'')],
      gm_css = ''''\<rparr>"

definition example_card :: card where
  "example_card =
     \<lparr>card_fields = [(''Answer'', ''A1''), (''Question'', ''Q1'')],
      card_tags = YSeq [],
      card_deck = YStr ''Deck1'',
      guid_basis = ''Q1|A1|Deck1|test1.md''\<rparr>"

definition block_result ::
  "env \<Rightarrow> path \<Rightarrow> path \<Rightarrow> AnkiModelDefinition \<Rightarrow> string \<Rightarrow> (card \<times> string list) option" where
  "block_result env filepath root_dir model_def b =
     (case (calculate_deck_name root_dir filepath, relative_to filepath root_dir) of
        (Inr dd, Inr rel) \<Rightarrow>
          process_block env (path_parent filepath) (str_relative rel) dd
            (map_option field_name
               (find (\<lambda>f. lower (field_name f) = ''sourcefile'') (model_fields model_def)))
            model_def b
      | _ \<Rightarrow> None)"

definition anki_blocks :: "string \<Rightarrow> string list" where
  "anki_blocks content = map snd (finditer ANKI_BLOCK_RE 0 content)"

definition key_missing :: "(yaml_value \<times> yaml_value) list \<Rightarrow> string \<Rightarrow> bool" where
  \<comment> \<open>the key is absent from the parsed record or null in it\<close>
  "key_missing raw k = (map_of raw (YStr k) = None \<or> map_of raw (YStr k) = Some YNull)"

definition block_incomplete :: "env \<Rightarrow> AnkiModelDefinition \<Rightarrow> string \<Rightarrow> bool" where
  \<comment> \<open>the body is no mapping, or a mapped key other than \<open>tags\<close> is missing in it\<close>
  "block_incomplete env model_def b =
     (case safe_load env b of
        None \<Rightarrow> True
      | Some (YMap raw) \<Rightarrow>
          (\<exists>(k, f) \<in> set (case yaml_field_map model_def of Some ym \<Rightarrow> ym | None \<Rightarrow> []).
             k \<noteq> ''tags'' \<and> key_missing raw k)
      | Some v \<Rightarrow> True)"

definition mapped_fields :: "(string \<times> string) list \<Rightarrow> string set" where
  \<comment> \<open>the fields that keys other than \<open>tags\<close> are mapped to\<close>
  "mapped_fields ym = snd ` {(k, f) \<in> set ym. k \<noteq> ''tags''}"

definition identity_part :: "(string \<times> string) list \<Rightarrow> card \<Rightarrow> string \<Rightarrow> string" where
  \<comment> \<open>what the identity basis prints for a key: the record's content of the field the key is
      mapped to; for an unmapped key the record is asked for the empty field name; what the
      record does not have prints as \<open>None\<close>\<close>
  "identity_part ym c key =
     (case map_of (card_fields c) (case map_of ym key of Some f \<Rightarrow> f | None \<Rightarrow> []) of
        Some v \<Rightarrow> v
      | None \<Rightarrow> ''None'')"

definition example_model :: AnkiModelDefinition where
  "example_model =
     \<lparr>model_id = 1234567890, model_name = ''Test Model'',
      model_fields = [\<lparr>field_name = ''Question''\<rparr>, \<lparr>field_name = ''Answer''\<rparr>,
                      \<lparr>field_name = ''SourceFile''\<rparr>],
      templates = [\<lparr>template_name = ''Card 1'', qfmt = ''{{Question}}'',
                    afmt = ''{{Question}}<hr>{{Answer}}''\<rparr>],
      yaml_field_map = Some [(''q'', ''Question''), (''a'', ''Answer'')], css = ''''\<rparr>"

definition tags_mapped_model :: AnkiModelDefinition where
  "tags_mapped_model =
     \<lparr>model_id = 123, model_name = ''Model with Tags'',
      model_fields = [\<lparr>field_name = ''Question''\<rparr>, \<lparr>field_name = ''Answer''\<rparr>,
                      \<lparr>field_name = ''Tags''\<rparr>],
      templates = [\<lparr>template_name = ''Card 1'', qfmt = ''{{Question}}'', afmt = ''{{Answer}}''\<rparr>],
      yaml_field_map = Some [(''q'', ''Question''), (''a'', ''Answer''), (''tags'', ''Tags'')],
      css = ''''\<rparr>"

definition unmapped_model :: AnkiModelDefinition where
  "unmapped_model =
     \<lparr>model_id = 7, model_name = ''Front and Back'',
      model_fields = [\<lparr>field_name = ''Front''\<rparr>, \<lparr>field_name = ''Back''\<rparr>],
      templates = [\<lparr>template_name = ''Card 1'', qfmt = ''{{Front}}'', afmt = ''{{Back}}''\<rparr>],
      yaml_field_map = Some [(''front'', ''Front''), (''back'', ''Back'')], css = ''''\<rparr>"

definition block_q1 :: string where
  "block_q1 = ''q: Q1'' @ [newline] @ ''a: A1''"

definition block_seq :: string where
  "block_seq = ''- x''"

definition block_no_answer :: string where
  "block_no_answer = ''q: Q3''"

definition block_tagged :: string where
  "block_tagged = ''q: Q2'' @ [newline] @ ''a: A2'' @ [newline] @ ''tags: [t1]''"

definition block_front_back :: string where
  "block_front_back = ''front: F'' @ [newline] @ ''back: B''"

definition fence :: "string \<Rightarrow> string" where
  "fence body = ''```anki'' @ [newline] @ body @ [newline] @ ''```'' @ [newline]"

definition example_text :: string where
  "example_text = fence block_q1 @ fence block_seq @ fence block_no_answer @ fence block_tagged"

definition example_yaml :: "string \<Rightarrow> yaml_value option" where
  "example_yaml body =
     (if body = block_q1 then Some (YMap [(YStr ''q'', YStr ''Q1''), (YStr ''a'', YStr ''A1'')])
      else if body = block_seq then Some (YSeq [YStr ''x''])
      else if body = block_no_answer then Some (YMap [(YStr ''q'', YStr ''Q3'')])
      else if body = block_tagged
      then Some (YMap [(YStr ''q'', YStr ''Q2''), (YStr ''a'', YStr ''A2''),
                       (YStr ''tags'', YSeq [YStr ''t1''])])
      else if body = block_front_back
      then Some (YMap [(YStr ''front'', YStr ''F''), (YStr ''back'', YStr ''B'')])
      else None)"

definition example_env :: env where
  "example_env =
     \<lparr>safe_load = example_yaml,
      py_str = (\<lambda>v. ''?''),
      resolve = (\<lambda>d s. Some (d @ [s])),
      is_file = (\<lambda>p. False),
      read_text = (\<lambda>p. if p = [''notes'', ''test.md''] then Some example_text
                         else if p = [''notes'', ''cards.md''] then Some (fence block_front_back)
                         else None)\<rparr>"

definition card_q1 :: card where
  "card_q1 =
     \<lparr>card_fields = [(''Question'', ''Q1''), (''Answer'', ''A1''), (''SourceFile'', ''test.md'')],
      card_tags = YSeq [], card_deck = YStr ''notes'',
      guid_basis = ''Q1|A1|notes|test.md''\<rparr>"

definition card_q2 :: card where
  "card_q2 =
     \<lparr>card_fields = [(''Question'', ''Q2''), (''Answer'', ''A2''), (''SourceFile'', ''test.md'')],
      card_tags = YSeq [YStr ''t1''], card_deck = YStr ''notes'',
      guid_basis = ''Q2|A2|notes|test.md''\<rparr>"

definition img_tag :: "string \<Rightarrow> string \<Rightarrow> string" where
  \<comment> \<open>an image tag with one attribute, the attribute's name spelled as given\<close>
  "img_tag attr src = ''<img '' @ attr @ ''='' @ [dquote] @ src @ [dquote] @ ''>''"

definition image_env :: env where
  \<comment> \<open>a notes directory in which \<open>images/pic.png\<close> is the only file\<close>
  "image_env =
     example_env
       \<lparr>resolve := (\<lambda>d s. if s = ''images/pic.png'' then Some (d @ [''images'', ''pic.png''])
                          else Some (d @ [s])),
        is_file := (\<lambda>p. p = [''notes'', ''images'', ''pic.png''])\<rparr>"

definition block_decked :: string where
  "block_decked = ''q: Q4'' @ [newline] @ ''a: A4'' @ [newline] @ ''deck: Custom''"

definition deck_env :: env where
  \<comment> \<open>a document whose first block has a \<open>deck\<close> entry and whose second block has none\<close>
  "deck_env =
     example_env
       \<lparr>safe_load := (\<lambda>body. if body = block_decked
                        then Some (YMap [(YStr ''q'', YStr ''Q4''), (YStr ''a'', YStr ''A4''),
                                         (YStr ''deck'', YStr ''Custom'')])
                        else example_yaml body),
        read_text := (\<lambda>p. if p = [''notes'', ''decks.md'']
                        then Some (fence block_decked @ fence block_q1) else None)\<rparr>"

definition card_custom :: card where
  "card_custom =
     \<lparr>card_fields = [(''Question'', ''Q4''), (''Answer'', ''A4''), (''SourceFile'', ''decks.md'')],
      card_tags = YSeq [], card_deck = YStr ''Custom'',
      guid_basis = ''Q4|A4|Custom|decks.md''\<rparr>"

definition card_default :: card where
  "card_default =
     \<lparr>card_fields = [(''Question'', ''Q1''), (''Answer'', ''A1''), (''SourceFile'', ''decks.md'')],
      card_tags = YSeq [], card_deck = YStr ''notes'',
      guid_basis = ''Q1|A1|notes|decks.md''\<rparr>"

section \<open>Verified properties\<close>

subsection \<open>Deck names\<close>

text \<open>
  C2. For a file below the scan root the deck name is the root's own name followed by the
  directories between the root and the file, joined by \<open>::\<close>; a file directly in the
  root gets the root's name. \<open>calculate_deck_name\<close> takes the root and the file and
  nothing else: the file's name never enters the result, so for \<open>rootdir/a/b/file.md\<close> it
  gives \<open>rootdir::a::b\<close> and never \<open>rootdir::a::b::file\<close>, which the tests of the
  repository ask for with \<open>include_filename=True\<close>.
\<close>

theorem deck_name_never_has_filename:
  "calculate_deck_name root (root @ dirs @ [fname]) = Inr (join ''::'' (path_name root # dirs))
   \<and> calculate_deck_name [''rootdir''] [''rootdir'', ''file.md''] = Inr ''rootdir''
   \<and> calculate_deck_name [''rootdir''] [''rootdir'', ''a'', ''b'', ''file.md''] = Inr ''rootdir::a::b''
   \<and> calculate_deck_name [''rootdir''] [''rootdir'', ''a'', ''b'', ''file.md'']
         \<noteq> Inr ''rootdir::a::b::file''"
  by (simp add: calculate_deck_name_def relative_to_def path_name_def)

subsection \<open>Schema validation\<close>

lemma find_tags_cases:
  "(case find P fs of Some f \<Rightarrow> [(''tags'', field_name f)] | None \<Rightarrow> []) = ym \<Longrightarrow>
   (if \<exists>f \<in> set fs. P f then \<exists>f \<in> set fs. P f \<and> ym = [(''tags'', field_name f)] else ym = [])"
  by (auto simp: find_None_iff find_Some_iff split: option.splits)

lemma default_map_passes:
  assumes "2 \<le> length fs"
  shows "filter (\<lambda>n. n \<notin> set (map field_name fs)) (remdups (map snd (default_yaml_field_map fs))) = []"
proof -
  have "0 < length fs" using assms by (cases fs) simp_all
  then have f0: "fs ! 0 \<in> set fs" by (rule nth_mem)
  have "1 < length fs" using assms by simp
  then have f1: "fs ! 1 \<in> set fs" by (rule nth_mem)
  have "\<And>f. find (\<lambda>f. lower (field_name f) = ''tags'') fs = Some f \<Longrightarrow> f \<in> set fs"
    by (auto simp: find_Some_iff)
  with f0 f1 show ?thesis
    by (auto simp: default_yaml_field_map_def filter_empty_conv split: option.splits)
qed

text \<open>
  C3. A schema without an explicit key-to-field mapping: with at least two fields the
  validator synthesizes \<open>q\<close> to the first field and \<open>a\<close> to the second, and \<open>tags\<close> to
  a field whose lower-cased name is \<open>tags\<close> when there is one, and whenever the whole
  validation succeeds its result is the schema with exactly this mapping; with fewer than
  two fields the validator raises and the whole validation fails.
\<close>

theorem default_mapping_synthesized:
  assumes "yaml_field_map m = None"
  shows "if 2 \<le> length (model_fields m)
         then \<exists>ym. set_default_yaml_field_map m = Inr (m\<lparr>yaml_field_map := Some ym\<rparr>) \<and>
                (\<forall>r. model_validate m = Inr r \<longrightarrow> r = m\<lparr>yaml_field_map := Some ym\<rparr>) \<and>
                (if \<exists>f \<in> set (model_fields m). lower (field_name f) = ''tags''
                 then \<exists>f \<in> set (model_fields m). lower (field_name f) = ''tags'' \<and>
                        ym = [(''q'', field_name (model_fields m ! 0)),
                              (''a'', field_name (model_fields m ! 1)),
                              (''tags'', field_name f)]
                 else ym = [(''q'', field_name (model_fields m ! 0)),
                            (''a'', field_name (model_fields m ! 1))])
         else set_default_yaml_field_map m = Inl NoDefaultMapping \<and>
              (\<exists>errs. model_validate m = Inl errs)"
proof (cases "2 \<le> length (model_fields m)")
  case True
  let ?ym = "default_yaml_field_map (model_fields m)"
  have s: "set_default_yaml_field_map m = Inr (m\<lparr>yaml_field_map := Some ?ym\<rparr>)"
    using assms True default_map_passes [OF True]
    by (simp add: set_default_yaml_field_map_def)
  have v: "\<forall>r. model_validate m = Inr r \<longrightarrow> r = m\<lparr>yaml_field_map := Some ?ym\<rparr>"
    using s
    by (auto simp: model_validate_def check_template_fields_exist_def Let_def
        split: if_splits sum.splits option.splits)
  have t: "if \<exists>f \<in> set (model_fields m). lower (field_name f) = ''tags''
           then \<exists>f \<in> set (model_fields m). lower (field_name f) = ''tags'' \<and>
                  ?ym = [(''q'', field_name (model_fields m ! 0)),
                        (''a'', field_name (model_fields m ! 1)),
                        (''tags'', field_name f)]
           else ?ym = [(''q'', field_name (model_fields m ! 0)),
                      (''a'', field_name (model_fields m ! 1))]"
    using find_tags_cases [OF refl, where P = "\<lambda>f. lower (field_name f) = ''tags''"
        and fs = "model_fields m"]
    by (auto simp: default_yaml_field_map_def split: if_splits)
  from s v t have "\<exists>ym. set_default_yaml_field_map m = Inr (m\<lparr>yaml_field_map := Some ym\<rparr>) \<and>
                (\<forall>r. model_validate m = Inr r \<longrightarrow> r = m\<lparr>yaml_field_map := Some ym\<rparr>) \<and>
                (if \<exists>f \<in> set (model_fields m). lower (field_name f) = ''tags''
                 then \<exists>f \<in> set (model_fields m). lower (field_name f) = ''tags'' \<and>
                        ym = [(''q'', field_name (model_fields m ! 0)),
                              (''a'', field_name (model_fields m ! 1)),
                              (''tags'', field_name f)]
                 else ym = [(''q'', field_name (model_fields m ! 0)),
                            (''a'', field_name (model_fields m ! 1))])"
    by (intro exI [of _ ?ym] conjI)
  with True show ?thesis by simp
next
  case False
  then have s: "set_default_yaml_field_map m = Inl NoDefaultMapping"
    using assms by (simp add: set_default_yaml_field_map_def)
  then have "\<exists>errs. model_validate m = Inl errs"
    by (auto simp: model_validate_def check_template_fields_exist_def Let_def
        split: if_splits sum.splits option.splits)
  with s False show ?thesis by simp
qed

theorem default_mapping_synthesized_witness:
  "yaml_field_map tags_model = None \<and> 2 \<le> length (model_fields tags_model) \<and>
   set_default_yaml_field_map tags_model =
     Inr (tags_model\<lparr>yaml_field_map :=
            Some [(''q'', ''Question''), (''a'', ''Answer''), (''tags'', ''Tags'')]\<rparr>) \<and>
   model_validate tags_model =
     Inr (tags_model\<lparr>yaml_field_map :=
            Some [(''q'', ''Question''), (''a'', ''Answer''), (''tags'', ''Tags'')]\<rparr>) \<and>
   yaml_field_map single_field_model = None \<and> length (model_fields single_field_model) < 2 \<and>
   set_default_yaml_field_map single_field_model = Inl NoDefaultMapping \<and>
   model_validate single_field_model = Inl [NoDefaultMapping]"
proof -
  have h1: "yaml_field_map tags_model = None" by (simp add: tags_model_def)
  have h2: "yaml_field_map single_field_model = None" by (simp add: single_field_model_def)
  have l1: "2 \<le> length (model_fields tags_model)" by (simp add: tags_model_def)
  have l2: "length (model_fields single_field_model) < 2" by (simp add: single_field_model_def)
  have v1: "model_validate tags_model =
     Inr (tags_model\<lparr>yaml_field_map :=
            Some [(''q'', ''Question''), (''a'', ''Answer''), (''tags'', ''Tags'')]\<rparr>)"
    by code_simp
  have v2: "model_validate single_field_model = Inl [NoDefaultMapping]" by code_simp
  from default_mapping_synthesized [OF h1] l1 v1
  have s1: "set_default_yaml_field_map tags_model =
     Inr (tags_model\<lparr>yaml_field_map :=
            Some [(''q'', ''Question''), (''a'', ''Answer''), (''tags'', ''Tags'')]\<rparr>)"
    by auto
  from default_mapping_synthesized [OF h2] l2
  have s2: "set_default_yaml_field_map single_field_model = Inl NoDefaultMapping"
    by auto
  from h1 h2 l1 l2 v1 v2 s1 s2 show ?thesis by simp
qed

lemma set_missing_fields:
  "set (missing_fields (map field_name (model_fields m)) fmt) = undefined_refs m fmt"
  by (auto simp: missing_fields_def undefined_refs_def)

lemma missing_fields_Nil:
  "(missing_fields (map field_name (model_fields m)) fmt = []) = (undefined_refs m fmt = {})"
  using set_missing_fields [of m fmt] by (metis set_empty)

lemma check_templates_None:
  "(check_templates (map field_name (model_fields m)) ts = None) =
   (\<forall>t \<in> set ts. undefined_refs m (qfmt t) = {} \<and> undefined_refs m (afmt t) = {})"
  by (induction ts) (auto simp: missing_fields_Nil)

lemma check_templates_Some:
  "check_templates (map field_name (model_fields m)) ts = Some e \<Longrightarrow>
   \<exists>ts1 t ts2 side missing.
     ts = ts1 @ t # ts2 \<and> e = UndefinedTemplateFields (template_name t) side missing \<and>
     (\<forall>t' \<in> set ts1. undefined_refs m (qfmt t') = {} \<and> undefined_refs m (afmt t') = {}) \<and>
     (side = Qfmt \<and> set missing = undefined_refs m (qfmt t) \<or>
      side = Afmt \<and> undefined_refs m (qfmt t) = {} \<and> set missing = undefined_refs m (afmt t)) \<and>
     missing \<noteq> []"
proof (induction ts)
  case Nil
  then show ?case by simp
next
  case (Cons t ts)
  show ?case
  proof (cases "missing_fields (map field_name (model_fields m)) (qfmt t) = []")
    case False
    with Cons.prems have "e = UndefinedTemplateFields (template_name t) Qfmt (missing_fields (map field_name (model_fields m)) (qfmt t))"
      by simp
    with False show ?thesis
      by (intro exI [of _ "[]"] exI [of _ t] exI [of _ ts] exI [of _ Qfmt]
          exI [of _ "missing_fields (map field_name (model_fields m)) (qfmt t)"])
        (simp add: set_missing_fields)
  next
    case q: True
    show ?thesis
    proof (cases "missing_fields (map field_name (model_fields m)) (afmt t) = []")
      case False
      with q Cons.prems have "e = UndefinedTemplateFields (template_name t) Afmt (missing_fields (map field_name (model_fields m)) (afmt t))"
        by simp
      with False q show ?thesis
        by (intro exI [of _ "[]"] exI [of _ t] exI [of _ ts] exI [of _ Afmt]
            exI [of _ "missing_fields (map field_name (model_fields m)) (afmt t)"])
          (simp add: set_missing_fields missing_fields_Nil)
    next
      case a: True
      with q Cons.prems have "check_templates (map field_name (model_fields m)) ts = Some e"
        by simp
      from Cons.IH [OF this] obtain ts1 t' ts2 side missing where
        h: "ts = ts1 @ t' # ts2" "e = UndefinedTemplateFields (template_name t') side missing"
           "\<forall>u \<in> set ts1. undefined_refs m (qfmt u) = {} \<and> undefined_refs m (afmt u) = {}"
           "side = Qfmt \<and> set missing = undefined_refs m (qfmt t') \<or>
            side = Afmt \<and> undefined_refs m (qfmt t') = {} \<and> set missing = undefined_refs m (afmt t')"
           "missing \<noteq> []"
        by blast
      with q a show ?thesis
        by (intro exI [of _ "t # ts1"] exI [of _ t'] exI [of _ ts2] exI [of _ side] exI [of _ missing])
          (simp add: missing_fields_Nil)
    qed
  qed
qed

text \<open>
  C4, as the code has it. Whenever some template refers in its question or answer format
  to a name that is neither built in nor declared, validation fails. When the identifier
  is positive and there are fields, the error is that of the first offending format string
  (the templates in their order, the question format before the answer format): it names
  the template, the side and exactly the undefined names of that string; what later format
  strings refer to is not looked at. When every name referred to is declared or built in,
  the check passes and returns the schema.
\<close>

theorem undefined_template_field_rejected:
  "(\<forall>t \<in> set (templates m). \<forall>n.
       n \<in> undefined_refs m (qfmt t) \<union> undefined_refs m (afmt t) \<longrightarrow>
       (\<exists>errs. model_validate m = Inl errs))
   \<and> (0 < model_id m \<and> model_fields m \<noteq> [] \<and>
        (\<exists>t \<in> set (templates m). undefined_refs m (qfmt t) \<union> undefined_refs m (afmt t) \<noteq> {}) \<longrightarrow>
        (\<exists>ts1 t ts2 side missing.
           templates m = ts1 @ t # ts2 \<and>
           model_validate m = Inl [UndefinedTemplateFields (template_name t) side missing] \<and>
           check_template_fields_exist m = Inl (UndefinedTemplateFields (template_name t) side missing) \<and>
           (\<forall>t' \<in> set ts1. undefined_refs m (qfmt t') = {} \<and> undefined_refs m (afmt t') = {}) \<and>
           (side = Qfmt \<and> set missing = undefined_refs m (qfmt t) \<or>
            side = Afmt \<and> undefined_refs m (qfmt t) = {} \<and> set missing = undefined_refs m (afmt t)) \<and>
           missing \<noteq> []))
   \<and> ((\<forall>t \<in> set (templates m). undefined_refs m (qfmt t) = {} \<and> undefined_refs m (afmt t) = {}) \<longrightarrow>
        check_template_fields_exist m = Inr m)"
proof (intro conjI ballI allI impI)
  fix t n
  assume t: "t \<in> set (templates m)" and n: "n \<in> undefined_refs m (qfmt t) \<union> undefined_refs m (afmt t)"
  show "\<exists>errs. model_validate m = Inl errs"
  proof (cases "0 < model_id m \<and> model_fields m \<noteq> [] \<and> templates m \<noteq> []")
    case False
    then show ?thesis
      by (auto simp: model_validate_def check_id_positive_def check_not_empty_def)
  next
    case True
    from t n have "check_templates (map field_name (model_fields m)) (templates m) \<noteq> None"
      unfolding check_templates_None by blast
    with True show ?thesis
      by (auto simp: model_validate_def check_id_positive_def check_not_empty_def
          check_template_fields_exist_def)
  qed
next
  assume a: "0 < model_id m \<and> model_fields m \<noteq> [] \<and>
        (\<exists>t \<in> set (templates m). undefined_refs m (qfmt t) \<union> undefined_refs m (afmt t) \<noteq> {})"
  then have "check_templates (map field_name (model_fields m)) (templates m) \<noteq> None"
    unfolding check_templates_None by blast
  then obtain e where e: "check_templates (map field_name (model_fields m)) (templates m) = Some e"
    by blast
  from a have ne: "templates m \<noteq> []" by auto
  from e a ne have v: "model_validate m = Inl [e]" "check_template_fields_exist m = Inl e"
    by (auto simp: model_validate_def check_id_positive_def check_not_empty_def
          check_template_fields_exist_def)
  from check_templates_Some [OF e] v
  show "\<exists>ts1 t ts2 side missing.
           templates m = ts1 @ t # ts2 \<and>
           model_validate m = Inl [UndefinedTemplateFields (template_name t) side missing] \<and>
           check_template_fields_exist m = Inl (UndefinedTemplateFields (template_name t) side missing) \<and>
           (\<forall>t' \<in> set ts1. undefined_refs m (qfmt t') = {} \<and> undefined_refs m (afmt t') = {}) \<and>
           (side = Qfmt \<and> set missing = undefined_refs m (qfmt t) \<or>
            side = Afmt \<and> undefined_refs m (qfmt t) = {} \<and> set missing = undefined_refs m (afmt t)) \<and>
           missing \<noteq> []"
    by (elim exE conjE) (intro exI conjI, assumption, simp_all)
next
  assume "\<forall>t \<in> set (templates m). undefined_refs m (qfmt t) = {} \<and> undefined_refs m (afmt t) = {}"
  then have "check_templates (map field_name (model_fields m)) (templates m) = None"
    unfolding check_templates_None .
  then show "check_template_fields_exist m = Inr m"
    by (simp add: check_template_fields_exist_def)
qed

theorem undefined_template_field_rejected_witness:
  "\<lparr>template_name = ''Card 1'', qfmt = ''{{Question}}'', afmt = ''{{UndefinedField}}''\<rparr>
     \<in> set (templates undefined_field_model) \<and>
   ''UndefinedField'' \<in> undefined_refs undefined_field_model ''{{UndefinedField}}'' \<and>
   0 < model_id undefined_field_model \<and> model_fields undefined_field_model \<noteq> [] \<and>
   model_validate undefined_field_model =
     Inl [UndefinedTemplateFields ''Card 1'' Afmt [''UndefinedField'']] \<and>
   undefined_refs builtin_fields_model ''{{Question}}'' = {} \<and>
   undefined_refs builtin_fields_model ''{{FrontSide}}<hr>{{Answer}}<br>{{Tags}}'' = {} \<and>
   check_template_fields_exist builtin_fields_model = Inr builtin_fields_model"
proof -
  let ?t = "\<lparr>template_name = ''Card 1'', qfmt = ''{{Question}}'', afmt = ''{{UndefinedField}}''\<rparr>"
  have t: "?t \<in> set (templates undefined_field_model)"
    by (simp add: undefined_field_model_def)
  have "missing_fields (map field_name (model_fields undefined_field_model)) ''{{UndefinedField}}''
          = [''UndefinedField'']"
    by code_simp
  then have u: "''UndefinedField'' \<in> undefined_refs undefined_field_model ''{{UndefinedField}}''"
    unfolding set_missing_fields [symmetric] by simp
  have p: "0 < model_id undefined_field_model" "model_fields undefined_field_model \<noteq> []"
    by (simp_all add: undefined_field_model_def)
  have v: "model_validate undefined_field_model =
             Inl [UndefinedTemplateFields ''Card 1'' Afmt [''UndefinedField'']]"
    by code_simp
  have "missing_fields (map field_name (model_fields builtin_fields_model)) ''{{Question}}'' = []"
       "missing_fields (map field_name (model_fields builtin_fields_model))
          ''{{FrontSide}}<hr>{{Answer}}<br>{{Tags}}'' = []"
    by code_simp+
  then have c: "undefined_refs builtin_fields_model ''{{Question}}'' = {}"
               "undefined_refs builtin_fields_model ''{{FrontSide}}<hr>{{Answer}}<br>{{Tags}}'' = {}"
    unfolding missing_fields_Nil by simp_all
  then have "\<forall>t \<in> set (templates builtin_fields_model).
               undefined_refs builtin_fields_model (qfmt t) = {} \<and>
               undefined_refs builtin_fields_model (afmt t) = {}"
    by (simp add: builtin_fields_model_def)
  with undefined_template_field_rejected [of builtin_fields_model]
  have "check_template_fields_exist builtin_fields_model = Inr builtin_fields_model"
    by blast
  with t u p v c show ?thesis by simp
qed

text \<open>
  C4 as stated fails: with the question format \<open>{{X}}\<close> and the answer format
  \<open>{{Y}}\<close>, neither declared, the error names \<open>X\<close> only, although \<open>Y\<close> is an
  undefined reference as well.
\<close>

theorem second_undefined_field_not_named:
  "''Y'' \<in> set (template_refs (afmt (hd (templates two_undefined_model)))) \<and>
   ''Y'' \<notin> set BUILTIN_FIELDS \<and>
   ''Y'' \<notin> set (map field_name (model_fields two_undefined_model)) \<and>
   model_validate two_undefined_model = Inl [UndefinedTemplateFields ''Card 1'' Qfmt [''X'']] \<and>
   check_template_fields_exist two_undefined_model = Inl (UndefinedTemplateFields ''Card 1'' Qfmt [''X'']) \<and>
   ''Y'' \<notin> set [''X'']"
  by code_simp

subsection \<open>Package builder\<close>

lemma add_note_length: "length (add_note snk name n ds) = length ds"
  by (induction ds) auto

lemma card_loop_grows:
  "card_loop snk b ns cs decks = Inr ds \<Longrightarrow> length decks \<le> length ds"
proof (induction cs arbitrary: decks)
  case Nil then show ?case by simp
next
  case (Cons c cs)
  then show ?case
    by (auto simp: Let_def add_note_length split: if_splits dest!: Cons.IH)
qed

lemma card_loop_nonempty:
  "card_loop snk b ns (c # cs) [] = Inr ds \<Longrightarrow> ds \<noteq> []"
  by (auto simp: Let_def add_note_length split: if_splits dest!: card_loop_grows)

text \<open>
  C7. With an empty list of records the builder forms no deck, warns and returns: no
  package is built and nothing is written, whatever the sink would accept. The last step of
  \<open>_main\<close> does not even call the builder. The empty list is the only input on which the
  builder returns this way.
\<close>

theorem no_cards_no_package:
  "generate_anki_package snk [] media_files anki_model output_filename = Inr NoPackage
   \<and> main_generate snk [] media_files anki_model output_filename = Inr NoPackage
   \<and> (generate_anki_package snk cards media_files anki_model output_filename = Inr NoPackage)
       = (cards = [])"
proof -
  have "(generate_anki_package snk cards media_files anki_model output_filename = Inr NoPackage)
        = (cards = [])"
  proof (cases cards)
    case Nil
    then show ?thesis by (simp add: generate_anki_package_def)
  next
    case (Cons c cs)
    then show ?thesis
      by (auto simp del: card_loop.simps simp: generate_anki_package_def Let_def
          split: sum.splits if_splits dest: card_loop_nonempty)
  qed
  then show ?thesis
    by (simp add: generate_anki_package_def main_generate_def)
qed

lemma all_notes_simps [simp]:
  "all_notes [] = {}"
  "all_notes (d # ds) = set (deck_notes d) \<union> all_notes ds"
  "all_notes (ds @ es) = all_notes ds \<union> all_notes es"
  by (auto simp: all_notes_def)

lemma add_note_upper: "all_notes (add_note snk k n ds) \<subseteq> insert n (all_notes ds)"
  by (induction ds) auto

lemma add_note_lower: "all_notes ds \<subseteq> all_notes (add_note snk k n ds)"
  by (induction ds) auto

lemma add_note_adds:
  "\<exists>d \<in> set ds. same_key snk k (deck_name d) \<Longrightarrow> n \<in> all_notes (add_note snk k n ds)"
  by (induction ds) auto

lemma card_loop_Cons:
  assumes "card_loop snk b ns (c # cs) decks = Inr ds"
  shows "\<exists>decks1 decks2.
     hashable (card_deck c) \<and>
     all_notes decks1 = all_notes decks \<and>
     (same_key snk (card_deck c) (card_deck c) \<longrightarrow>
        (\<exists>d \<in> set decks1. same_key snk (card_deck c) (deck_name d))) \<and>
     decks2 = (if note_accepted snk (built_note snk ns c)
               then add_note snk (card_deck c) (built_note snk ns c) decks1 else decks1) \<and>
     card_loop snk b ns cs decks2 = Inr ds"
proof -
  let ?new = "\<lparr>deck_id = b + \<bar>py_hash snk (card_deck c)\<bar> mod 100000000,
               deck_name = card_deck c, deck_notes = []\<rparr>"
  let ?decks1 = "if \<not> (\<exists>d \<in> set decks. same_key snk (card_deck c) (deck_name d))
                 then decks @ [?new] else decks"
  let ?decks2 = "if note_accepted snk (built_note snk ns c)
                 then add_note snk (card_deck c) (built_note snk ns c) ?decks1 else ?decks1"
  from assms have h: "hashable (card_deck c)"
    by (auto simp: Let_def split: if_splits)
  with assms have l: "card_loop snk b ns cs ?decks2 = Inr ds"
    by (simp add: Let_def built_note_def split del: if_split cong: if_cong)
  have n: "all_notes ?decks1 = all_notes decks" by simp
  have k: "same_key snk (card_deck c) (card_deck c) \<longrightarrow>
        (\<exists>d \<in> set ?decks1. same_key snk (card_deck c) (deck_name d))"
    by auto
  from h n k l show ?thesis by blast
qed

lemma card_loop_sound:
  "card_loop snk b ns cs decks = Inr ds \<Longrightarrow>
   all_notes ds \<subseteq> all_notes decks \<union> built_note snk ns ` {c \<in> set cs. note_accepted snk (built_note snk ns c)}"
proof (induction cs arbitrary: decks)
  case Nil
  then show ?case by simp
next
  case (Cons c cs)
  from card_loop_Cons [OF Cons.prems] obtain decks1 decks2 where
    h: "all_notes decks1 = all_notes decks"
       "decks2 = (if note_accepted snk (built_note snk ns c)
               then add_note snk (card_deck c) (built_note snk ns c) decks1 else decks1)"
       "card_loop snk b ns cs decks2 = Inr ds"
    by blast
  from Cons.IH [OF h(3)] have
    "all_notes ds \<subseteq> all_notes decks2 \<union> built_note snk ns ` {c \<in> set cs. note_accepted snk (built_note snk ns c)}" .
  moreover have "all_notes decks2 \<subseteq> all_notes decks \<union>
      (if note_accepted snk (built_note snk ns c) then {built_note snk ns c} else {})"
    using h(1,2) add_note_upper [of snk "card_deck c" "built_note snk ns c" decks1] by auto
  ultimately show ?case by (auto split: if_splits)
qed

lemma card_loop_mono:
  "card_loop snk b ns cs decks = Inr ds \<Longrightarrow> all_notes decks \<subseteq> all_notes ds"
proof (induction cs arbitrary: decks)
  case Nil
  then show ?case by simp
next
  case (Cons c cs)
  from card_loop_Cons [OF Cons.prems] obtain decks1 decks2 where
    h: "all_notes decks1 = all_notes decks"
       "decks2 = (if note_accepted snk (built_note snk ns c)
               then add_note snk (card_deck c) (built_note snk ns c) decks1 else decks1)"
       "card_loop snk b ns cs decks2 = Inr ds"
    by blast
  have "all_notes decks \<subseteq> all_notes decks2"
    using h(1,2) add_note_lower [of decks1 snk "card_deck c" "built_note snk ns c"] by auto
  with Cons.IH [OF h(3)] show ?case by blast
qed

lemma card_loop_complete:
  "card_loop snk b ns cs decks = Inr ds \<Longrightarrow>
   c \<in> set cs \<Longrightarrow> same_key snk (card_deck c) (card_deck c) \<Longrightarrow>
   note_accepted snk (built_note snk ns c) \<Longrightarrow> built_note snk ns c \<in> all_notes ds"
proof (induction cs arbitrary: decks)
  case Nil
  then show ?case by simp
next
  case (Cons c' cs)
  from card_loop_Cons [OF Cons.prems(1)] obtain decks1 decks2 where
    h: "same_key snk (card_deck c') (card_deck c') \<longrightarrow>
        (\<exists>d \<in> set decks1. same_key snk (card_deck c') (deck_name d))"
       "decks2 = (if note_accepted snk (built_note snk ns c')
               then add_note snk (card_deck c') (built_note snk ns c') decks1 else decks1)"
       "card_loop snk b ns cs decks2 = Inr ds"
    by blast
  show ?case
  proof (cases "c = c'")
    case True
    with Cons.prems h(1,2) have "built_note snk ns c \<in> all_notes decks2"
      by (simp add: add_note_adds)
    with card_loop_mono [OF h(3)] show ?thesis by blast
  next
    case False
    with Cons.prems have "c \<in> set cs" by simp
    from Cons.IH [OF h(3) this Cons.prems(3,4)] show ?thesis .
  qed
qed

lemma ordered_fields_nth:
  "length (ordered_fields names c) = length names \<and>
   (\<forall>i < length names. ordered_fields names c ! i =
      (case map_of (card_fields c) (names ! i) of Some v \<Rightarrow> v | None \<Rightarrow> []))"
  by (simp add: ordered_fields_def)

text \<open>
  C8. In a written package every note of every deck is the note built for one of the
  records: it has one value per field the schema declares, in the declared order, the value
  at each position being what the record's field mapping holds for that field name and the
  empty string when the record has no such field. Conversely the note of every record that
  the sink accepts is in one of the decks (deck names being keys equal to themselves).
\<close>

theorem note_fields_in_schema_order:
  assumes "generate_anki_package snk cards media_files anki_model output_filename =
             Inr (PackageWritten decks unique_media_files out)"
  shows "(\<forall>d \<in> set decks. \<forall>n \<in> set (deck_notes d).
            \<exists>c \<in> set cards. n = built_note snk (gm_fields anki_model) c \<and>
              length (note_fields n) = length (gm_fields anki_model) \<and>
              (\<forall>i < length (gm_fields anki_model).
                 note_fields n ! i =
                   (case map_of (card_fields c) (gm_fields anki_model ! i) of
                      Some v \<Rightarrow> v | None \<Rightarrow> [])))
       \<and> (\<forall>c \<in> set cards.
            same_key snk (card_deck c) (card_deck c) \<and>
            note_accepted snk (built_note snk (gm_fields anki_model) c) \<longrightarrow>
            (\<exists>d \<in> set decks. built_note snk (gm_fields anki_model) c \<in> set (deck_notes d)))"
proof -
  let ?b = "2000000000 + \<bar>py_hash snk (YStr (gm_name anki_model))\<bar> mod 500000000"
  from assms have l: "card_loop snk ?b (gm_fields anki_model) cards [] = Inr decks"
    by (auto simp: generate_anki_package_def Let_def split: sum.splits if_splits)
  show ?thesis
  proof (intro conjI ballI impI)
    fix d n assume "d \<in> set decks" "n \<in> set (deck_notes d)"
    then have "n \<in> all_notes decks" by (auto simp: all_notes_def)
    with card_loop_sound [OF l] obtain c where
      c: "c \<in> set cards" "n = built_note snk (gm_fields anki_model) c" by auto
    then have "note_fields n = ordered_fields (gm_fields anki_model) c"
      by (simp add: built_note_def)
    with c ordered_fields_nth [of "gm_fields anki_model" c]
    show "\<exists>c \<in> set cards. n = built_note snk (gm_fields anki_model) c \<and>
              length (note_fields n) = length (gm_fields anki_model) \<and>
              (\<forall>i < length (gm_fields anki_model).
                 note_fields n ! i =
                   (case map_of (card_fields c) (gm_fields anki_model ! i) of
                      Some v \<Rightarrow> v | None \<Rightarrow> []))"
      by (intro bexI [of _ c]) simp_all
  next
    fix c assume "c \<in> set cards"
      "same_key snk (card_deck c) (card_deck c) \<and>
       note_accepted snk (built_note snk (gm_fields anki_model) c)"
    with card_loop_complete [OF l] have
      "built_note snk (gm_fields anki_model) c \<in> all_notes decks" by blast
    then show "\<exists>d \<in> set decks. built_note snk (gm_fields anki_model) c \<in> set (deck_notes d)"
      by (auto simp: all_notes_def)
  qed
qed

theorem note_fields_in_schema_order_witness:
  "generate_anki_package example_sink [example_card] [] example_genanki_model ''out.apkg'' =
     Inr (PackageWritten
            [\<lparr>deck_id = 2000000000, deck_name = YStr ''Deck1'',
              deck_notes = [\<lparr>note_fields = [''Q1'', ''A1'', []],
                              note_guid = ''Q1|A1|Deck1|test1.md'',
                              note_tags = YSeq []\<rparr>]\<rparr>]
            [] ''out.apkg'') \<and>
   (\<exists>c \<in> set [example_card].
      \<lparr>note_fields = [''Q1'', ''A1'', []], note_guid = ''Q1|A1|Deck1|test1.md'',
       note_tags = YSeq []\<rparr> = built_note example_sink (gm_fields example_genanki_model) c)"
proof -
  let ?n = "\<lparr>note_fields = [''Q1'', ''A1'', []], note_guid = ''Q1|A1|Deck1|test1.md'',
             note_tags = YSeq []\<rparr>"
  let ?d = "\<lparr>deck_id = 2000000000, deck_name = YStr ''Deck1'', deck_notes = [?n]\<rparr>"
  have e: "generate_anki_package example_sink [example_card] [] example_genanki_model ''out.apkg'' =
             Inr (PackageWritten [?d] [] ''out.apkg'')"
    by code_simp
  from note_fields_in_schema_order [OF e]
  have "\<forall>d \<in> set [?d]. \<forall>n \<in> set (deck_notes d).
          \<exists>c \<in> set [example_card]. n = built_note example_sink (gm_fields example_genanki_model) c"
    by blast
  then have "\<exists>c \<in> set [example_card].
               ?n = built_note example_sink (gm_fields example_genanki_model) c"
    by simp
  with e show ?thesis by simp
qed

subsection \<open>Card extraction\<close>

lemma block_loop_eq:
  "block_loop body bs cards media =
     (cards @ map fst (List.map_filter body bs), media @ concat (map snd (List.map_filter body bs)))"
  by (induction bs arbitrary: cards media) (auto simp: List.map_filter_simps split: option.splits)

lemma calculate_deck_name_defined:
  "relative_to filepath root_dir = Inr rel \<Longrightarrow> \<exists>dd. calculate_deck_name root_dir filepath = Inr dd"
  by (simp add: calculate_deck_name_def Let_def)

lemma find_anki_cards_eq:
  assumes "relative_to filepath root_dir = Inr rel" "read_text env filepath = Some content"
  shows "find_anki_cards_in_file env filepath root_dir model_def =
     Inr (map fst (List.map_filter (block_result env filepath root_dir model_def) (anki_blocks content)),
          remdups (concat (map snd
            (List.map_filter (block_result env filepath root_dir model_def) (anki_blocks content)))))"
proof -
  from calculate_deck_name_defined [OF assms(1)] obtain dd where
    dd: "calculate_deck_name root_dir filepath = Inr dd" by blast
  have b: "block_result env filepath root_dir model_def =
       process_block env (path_parent filepath) (str_relative rel) dd
            (map_option field_name
               (find (\<lambda>f. lower (field_name f) = ''sourcefile'') (model_fields model_def)))
            model_def"
    using dd assms(1) by (auto simp: block_result_def fun_eq_iff)
  show ?thesis
    unfolding b
    using dd assms
    by (simp add: find_anki_cards_in_file_def Let_def block_loop_eq anki_blocks_def)
qed

lemma find_anki_cards_cases:
  assumes "find_anki_cards_in_file env filepath root_dir model_def = Inr (cards, media)"
  shows "\<exists>rel. relative_to filepath root_dir = Inr rel \<and>
     (read_text env filepath = None \<and> cards = [] \<and> media = [] \<or>
      (\<exists>content. read_text env filepath = Some content \<and>
         cards = map fst (List.map_filter (block_result env filepath root_dir model_def) (anki_blocks content)) \<and>
         media = remdups (concat (map snd
            (List.map_filter (block_result env filepath root_dir model_def) (anki_blocks content))))))"
proof (cases "relative_to filepath root_dir")
  case (Inl e)
  with assms show ?thesis
    by (simp add: find_anki_cards_in_file_def calculate_deck_name_def)
next
  case (Inr rel)
  show ?thesis
  proof (cases "read_text env filepath")
    case None
    with Inr assms show ?thesis
      by (auto simp: find_anki_cards_in_file_def calculate_deck_name_def Let_def)
  next
    case (Some content)
    from find_anki_cards_eq [OF Inr Some, of model_def] assms Inr Some
    show ?thesis by auto
  qed
qed

lemma card_from_block:
  assumes "find_anki_cards_in_file env filepath root_dir model_def = Inr (cards, media)"
    and "c \<in> set cards"
  shows "\<exists>content b m. read_text env filepath = Some content \<and> b \<in> set (anki_blocks content) \<and>
           block_result env filepath root_dir model_def b = Some (c, m)"
proof -
  from find_anki_cards_cases [OF assms(1)] assms(2) obtain content where
    c: "read_text env filepath = Some content"
       "cards = map fst (List.map_filter (block_result env filepath root_dir model_def) (anki_blocks content))"
    by auto
  with assms(2) obtain b m where "b \<in> set (anki_blocks content)"
     "block_result env filepath root_dir model_def b = Some (c, m)"
    by (auto simp: List.map_filter_def)
  with c(1) show ?thesis by blast
qed

lemma dict_get_missing: "(dict_get raw k YNull = YNull) = key_missing raw k"
  by (auto simp: dict_get_def key_missing_def split: option.splits)

lemma field_loop_missing:
  "(k, f) \<in> set ym \<Longrightarrow> k \<noteq> ''tags'' \<Longrightarrow> key_missing raw k \<Longrightarrow>
   field_loop env md raw ym cf cm = MissingKey \<or> field_loop env md raw ym cf cm = Raised"
proof (induction ym arbitrary: cf cm)
  case Nil
  then show ?case by simp
next
  case (Cons e ym)
  obtain k' f' where e: "e = (k', f')" by (cases e)
  show ?case
  proof (cases "(k, f) = e")
    case True
    with Cons.prems e show ?thesis
      by (simp add: dict_get_missing Let_def)
  next
    case False
    with Cons.prems have "(k, f) \<in> set ym" by simp
    from Cons.IH [OF this Cons.prems(2,3)] e show ?thesis
      by (auto simp: Let_def split: option.splits)
  qed
qed

lemma process_block_incomplete:
  "block_incomplete env model_def b \<Longrightarrow>
   process_block env md rel dd sff model_def b = None"
proof -
  assume a: "block_incomplete env model_def b"
  show ?thesis
  proof (cases "safe_load env b")
    case None
    then show ?thesis by (simp add: process_block_def)
  next
    case (Some v)
    show ?thesis
    proof (cases v)
      case (YMap raw)
      show ?thesis
      proof (cases "yaml_field_map model_def")
        case None
        with Some YMap show ?thesis by (simp add: process_block_def)
      next
        case ym: (Some ym)
        from a Some YMap ym obtain k f where
          "(k, f) \<in> set ym" "k \<noteq> ''tags''" "key_missing raw k"
          by (auto simp: block_incomplete_def)
        from field_loop_missing [OF this, of env md "[]" "[]"] Some YMap ym
        show ?thesis by (auto simp: process_block_def)
      qed
    qed (use Some in \<open>simp_all add: process_block_def\<close>)
  qed
qed

lemma block_result_incomplete:
  "block_incomplete env model_def b \<Longrightarrow> block_result env filepath root_dir model_def b = None"
  by (auto simp: block_result_def process_block_incomplete split: sum.splits)

lemma map_filter_skip:
  "f b = None \<Longrightarrow> List.map_filter f (bs1 @ b # bs2) = List.map_filter f (bs1 @ bs2)"
  by (simp add: List.map_filter_def)

text \<open>
  C6. In a document whose blocks are \<open>bs1\<close>, \<open>b\<close>, \<open>bs2\<close>, a block \<open>b\<close> whose body
  does not parse, or parses to something that is no mapping (a sequence, say), or lacks (or
  has as null) a key of the schema's map other than \<open>tags\<close>, yields no record; the
  extraction returns normally, and what it returns is what the other blocks yield, each
  on its own and in their order, with their media.
\<close>

theorem incomplete_block_skipped:
  assumes "relative_to filepath root_dir = Inr rel"
    and "read_text env filepath = Some content"
    and "anki_blocks content = bs1 @ b # bs2"
    and "block_incomplete env model_def b"
  shows "block_result env filepath root_dir model_def b = None \<and>
         find_anki_cards_in_file env filepath root_dir model_def =
           Inr (map fst (List.map_filter (block_result env filepath root_dir model_def) (bs1 @ bs2)),
                remdups (concat (map snd
                  (List.map_filter (block_result env filepath root_dir model_def) (bs1 @ bs2)))))"
  using find_anki_cards_eq [OF assms(1,2), of model_def] block_result_incomplete [OF assms(4)]
  by (simp add: assms(3) map_filter_skip)

lemma mapped_fields_simps [simp]:
  "mapped_fields [] = {}"
  "mapped_fields ((k, f) # ym) = (if k = ''tags'' then mapped_fields ym else insert f (mapped_fields ym))"
  by (auto simp: mapped_fields_def image_iff)

lemma field_loop_skips_tags:
  "field_loop env md raw ym cf cm =
   field_loop env md raw (filter (\<lambda>(k, f). k \<noteq> ''tags'') ym) cf cm"
  by (induction ym arbitrary: cf cm) (auto simp: Let_def split: option.splits)

lemma field_loop_ignores_tags:
  "\<forall>k. k \<noteq> ''tags'' \<longrightarrow> map_of raw' (YStr k) = map_of raw (YStr k) \<Longrightarrow>
   py_str env' = py_str env \<Longrightarrow> resolve env' = resolve env \<Longrightarrow> is_file env' = is_file env \<Longrightarrow>
   field_loop env' md raw' ym cf cm = field_loop env md raw ym cf cm"
proof (induction ym arbitrary: cf cm)
  case Nil
  then show ?case by simp
next
  case (Cons e ym)
  obtain k f where e: "e = (k, f)" by (cases e)
  have "replace_src env' md = replace_src env md"
    using Cons.prems by (auto simp: replace_src_def fun_eq_iff split: option.splits)
  then have p: "\<And>s. process_field_for_images env' s md = process_field_for_images env s md"
    by (simp add: process_field_for_images_def)
  have s: "\<And>v. str_of env' v = str_of env v"
    using Cons.prems by (simp add: str_of_def split: yaml_value.splits)
  show ?case
  proof (cases "k = ''tags''")
    case True
    with e Cons show ?thesis by simp
  next
    case False
    with Cons.prems have "dict_get raw' k YNull = dict_get raw k YNull"
      by (simp add: dict_get_def)
    with e False Cons p s show ?thesis
      by (auto simp: Let_def split: option.splits)
  qed
qed

lemma field_loop_keys:
  "field_loop env md raw ym cf cm = Populated cf' cm' \<Longrightarrow>
   fst ` set cf' = fst ` set cf \<union> mapped_fields ym"
proof (induction ym arbitrary: cf cm)
  case Nil
  then show ?case by simp
next
  case (Cons e ym)
  obtain k f where e: "e = (k, f)" by (cases e)
  show ?case
  proof (cases "k = ''tags''")
    case True
    with e Cons.prems have "field_loop env md raw ym cf cm = Populated cf' cm'" by simp
    from Cons.IH [OF this] e True show ?thesis by simp
  next
    case False
    with e Cons.prems obtain pc media where
      "field_loop env md raw ym (AList.update f pc cf) (cm @ media) = Populated cf' cm'"
      by (auto simp: Let_def split: if_splits option.splits)
    from Cons.IH [OF this] e False show ?thesis
      by (simp add: dom_update)
  qed
qed

text \<open>What a block that yields a card went through.\<close>

lemma process_block_Some:
  assumes "process_block env md rel dd sff model_def b = Some (c, media)"
  shows "\<exists>raw ym cf.
     safe_load env b = Some (YMap raw) \<and> yaml_field_map model_def = Some ym \<and>
     field_loop env md raw ym [] [] = Populated cf media \<and>
     card_fields c = (case sff of None \<Rightarrow> cf
                      | Some n \<Rightarrow> if n = [] then cf else AList.update n rel cf) \<and>
     card_tags c = dict_get raw ''tags'' (YSeq []) \<and>
     card_deck c = dict_get raw ''deck'' (YStr dd) \<and>
     guid_basis c =
       fmt_optional (map_of (card_fields c) (case map_of ym ''q'' of Some n \<Rightarrow> n | None \<Rightarrow> [])) @ ''|'' @
       fmt_optional (map_of (card_fields c) (case map_of ym ''a'' of Some n \<Rightarrow> n | None \<Rightarrow> [])) @ ''|'' @
       str_of env (card_deck c) @ ''|'' @ rel"
proof (cases "safe_load env b")
  case None
  with assms show ?thesis by (simp add: process_block_def)
next
  case (Some v)
  show ?thesis
  proof (cases v)
    case (YMap raw)
    show ?thesis
    proof (cases "yaml_field_map model_def")
      case None
      with assms Some YMap show ?thesis by (simp add: process_block_def)
    next
      case ym: (Some ym)
      show ?thesis
      proof (cases "field_loop env md raw ym [] []")
        case (Populated cf cm)
        with assms Some YMap ym show ?thesis
          by (auto simp: process_block_def Let_def)
      qed (use assms Some YMap ym in \<open>simp_all add: process_block_def\<close>)
    qed
  qed (use assms Some in \<open>simp_all add: process_block_def\<close>)
qed

lemma block_result_Some:
  assumes "block_result env filepath root_dir model_def b = Some (c, media)"
  shows "\<exists>dd rel. calculate_deck_name root_dir filepath = Inr dd \<and>
           relative_to filepath root_dir = Inr rel \<and>
           process_block env (path_parent filepath) (str_relative rel) dd
            (map_option field_name
               (find (\<lambda>f. lower (field_name f) = ''sourcefile'') (model_fields model_def)))
            model_def b = Some (c, media)"
  using assms by (auto simp: block_result_def split: sum.splits)

lemma set_default_Inr:
  "set_default_yaml_field_map m = Inr m2 \<Longrightarrow>
   \<exists>ym. m2 = m\<lparr>yaml_field_map := Some ym\<rparr> \<and> snd ` set ym \<subseteq> field_name ` set (model_fields m)"
  by (auto simp: set_default_yaml_field_map_def Let_def filter_empty_conv
      split: option.splits if_splits sum.splits)

lemma validated_map:
  assumes "model_validate m0 = Inr model_def"
  shows "\<exists>ym. yaml_field_map model_def = Some ym \<and>
           snd ` set ym \<subseteq> field_name ` set (model_fields model_def)"
proof -
  from assms have "set_default_yaml_field_map m0 = Inr model_def"
    by (auto simp: model_validate_def check_template_fields_exist_def Let_def
        split: if_splits sum.splits option.splits)
  from set_default_Inr [OF this] show ?thesis by auto
qed

lemma mapped_fields_subset: "mapped_fields ym \<subseteq> snd ` set ym"
  by (auto simp: mapped_fields_def)

lemma source_file_field:
  "map_option field_name (find (\<lambda>f. lower (field_name f) = ''sourcefile'') fs) = Some n \<Longrightarrow>
   n \<in> field_name ` set fs \<and> lower n = ''sourcefile''"
  by (auto simp: find_Some_iff)

lemma process_block_keys:
  assumes "process_block env md rel dd sff model_def b = Some (c, media)"
  shows "\<exists>ym. yaml_field_map model_def = Some ym \<and>
           mapped_fields ym \<subseteq> fst ` set (card_fields c) \<and>
           fst ` set (card_fields c) \<subseteq> mapped_fields ym \<union> set_option sff"
proof -
  from process_block_Some [OF assms] obtain raw ym cf where
    h: "yaml_field_map model_def = Some ym"
       "field_loop env md raw ym [] [] = Populated cf media"
       "card_fields c = (case sff of None \<Rightarrow> cf
                      | Some n \<Rightarrow> if n = [] then cf else AList.update n rel cf)"
    by blast
  from field_loop_keys [OF h(2)] have "fst ` set cf = mapped_fields ym" by simp
  with h(1,3) show ?thesis
    by (auto simp: dom_update split: option.splits if_splits)
qed

text \<open>
  C10. With a schema that passed validation, every key of the field mapping of every
  extracted record is the name of a declared field: the keys are fields that the schema's
  map assigns to keys other than \<open>tags\<close>, which validation checked against the declared
  fields, or the declared field whose lower-cased name is \<open>sourcefile\<close>.
\<close>

theorem record_fields_declared:
  assumes "model_validate m0 = Inr model_def"
    and "find_anki_cards_in_file env filepath root_dir model_def = Inr (cards, media)"
    and "c \<in> set cards"
  shows "fst ` set (card_fields c) \<subseteq> field_name ` set (model_fields model_def) \<and>
         (\<exists>ym. yaml_field_map model_def = Some ym \<and>
            snd ` set ym \<subseteq> field_name ` set (model_fields model_def) \<and>
            fst ` set (card_fields c) \<subseteq>
              mapped_fields ym \<union>
              {n \<in> field_name ` set (model_fields model_def). lower n = ''sourcefile''})"
proof -
  from validated_map [OF assms(1)] obtain ym where
    ym: "yaml_field_map model_def = Some ym"
        "snd ` set ym \<subseteq> field_name ` set (model_fields model_def)" by blast
  from card_from_block [OF assms(2,3)] obtain b m where
    "block_result env filepath root_dir model_def b = Some (c, m)" by blast
  from block_result_Some [OF this] obtain dd rel where
    p: "process_block env (path_parent filepath) (str_relative rel) dd
            (map_option field_name
               (find (\<lambda>f. lower (field_name f) = ''sourcefile'') (model_fields model_def)))
            model_def b = Some (c, m)" by blast
  let ?sff = "map_option field_name
               (find (\<lambda>f. lower (field_name f) = ''sourcefile'') (model_fields model_def))"
  from process_block_keys [OF p] ym(1) have
    k: "fst ` set (card_fields c) \<subseteq> mapped_fields ym \<union> set_option ?sff" by simp
  have "set_option ?sff \<subseteq> {n \<in> field_name ` set (model_fields model_def). lower n = ''sourcefile''}"
    using source_file_field [of "model_fields model_def"] by (cases ?sff) auto
  with k have k2: "fst ` set (card_fields c) \<subseteq>
              mapped_fields ym \<union>
              {n \<in> field_name ` set (model_fields model_def). lower n = ''sourcefile''}"
    by blast
  with ym(2) mapped_fields_subset [of ym]
  have "fst ` set (card_fields c) \<subseteq> field_name ` set (model_fields model_def)" by blast
  with ym k2 show ?thesis by blast
qed

text \<open>
  C1, as the code has it. Every extracted card is the record of a block of the document, and
  its identity basis is, joined by \<open>|\<close>: for the question key and then for the answer key,
  the content the record holds for the field the key is mapped to (the record always holds
  one) and, when the key is unmapped, the text \<open>None\<close> (unless the record holds content
  under the empty field name, which is then printed); the text of the resolved deck, which
  is the \<open>deck\<close> entry of the card's own block when that block has one and the default deck
  name otherwise; and the path of the document relative to the scan root.
\<close>

theorem identity_basis_parts:
  assumes "find_anki_cards_in_file env filepath root_dir model_def = Inr (cards, media)"
    and "c \<in> set cards"
  shows "\<exists>ym rel dd content.
     yaml_field_map model_def = Some ym \<and> relative_to filepath root_dir = Inr rel \<and>
     calculate_deck_name root_dir filepath = Inr dd \<and>
     read_text env filepath = Some content \<and>
     (\<exists>b m. b \<in> set (anki_blocks content) \<and>
        block_result env filepath root_dir model_def b = Some (c, m)) \<and>
     (\<forall>b m. block_result env filepath root_dir model_def b = Some (c, m) \<longrightarrow>
        (\<exists>raw. safe_load env b = Some (YMap raw) \<and>
           card_deck c = (case map_of raw (YStr ''deck'') of Some d \<Rightarrow> d | None \<Rightarrow> YStr dd))) \<and>
     guid_basis c =
       identity_part ym c ''q'' @ ''|'' @ identity_part ym c ''a'' @ ''|'' @
       str_of env (card_deck c) @ ''|'' @ str_relative rel \<and>
     (\<forall>key f. (key = ''q'' \<or> key = ''a'') \<and> map_of ym key = Some f \<longrightarrow>
        map_of (card_fields c) f = Some (identity_part ym c key)) \<and>
     (\<forall>key. (key = ''q'' \<or> key = ''a'') \<and> map_of ym key = None \<and>
        [] \<notin> fst ` set (card_fields c) \<longrightarrow> identity_part ym c key = ''None'')"
proof -
  from card_from_block [OF assms] obtain content b m where
    cb: "read_text env filepath = Some content" "b \<in> set (anki_blocks content)"
        "block_result env filepath root_dir model_def b = Some (c, m)" by blast
  from block_result_Some [OF cb(3)] obtain dd rel where
    dr: "calculate_deck_name root_dir filepath = Inr dd" "relative_to filepath root_dir = Inr rel"
    and p: "process_block env (path_parent filepath) (str_relative rel) dd
            (map_option field_name
               (find (\<lambda>f. lower (field_name f) = ''sourcefile'') (model_fields model_def)))
            model_def b = Some (c, m)" by blast
  from process_block_Some [OF p] obtain ym where
    h: "yaml_field_map model_def = Some ym"
       "guid_basis c =
         fmt_optional (map_of (card_fields c) (case map_of ym ''q'' of Some n \<Rightarrow> n | None \<Rightarrow> [])) @ ''|'' @
         fmt_optional (map_of (card_fields c) (case map_of ym ''a'' of Some n \<Rightarrow> n | None \<Rightarrow> [])) @ ''|'' @
         str_of env (card_deck c) @ ''|'' @ str_relative rel"
    by blast
  from process_block_keys [OF p] h(1) have
    mf: "mapped_fields ym \<subseteq> fst ` set (card_fields c)" by simp
  have own: "\<exists>b m. b \<in> set (anki_blocks content) \<and>
        block_result env filepath root_dir model_def b = Some (c, m)"
    using cb(2,3) by blast
  have d: "\<forall>b m. block_result env filepath root_dir model_def b = Some (c, m) \<longrightarrow>
        (\<exists>raw. safe_load env b = Some (YMap raw) \<and>
           card_deck c = (case map_of raw (YStr ''deck'') of Some d \<Rightarrow> d | None \<Rightarrow> YStr dd))"
  proof (intro allI impI)
    fix b' m' assume "block_result env filepath root_dir model_def b' = Some (c, m')"
    from block_result_Some [OF this] dr obtain
      p': "process_block env (path_parent filepath) (str_relative rel) dd
            (map_option field_name
               (find (\<lambda>f. lower (field_name f) = ''sourcefile'') (model_fields model_def)))
            model_def b' = Some (c, m')" by auto
    from process_block_Some [OF p'] obtain raw where
      "safe_load env b' = Some (YMap raw)" "card_deck c = dict_get raw ''deck'' (YStr dd)"
      by blast
    then show "\<exists>raw. safe_load env b' = Some (YMap raw) \<and>
           card_deck c = (case map_of raw (YStr ''deck'') of Some d \<Rightarrow> d | None \<Rightarrow> YStr dd)"
      by (auto simp: dict_get_def)
  qed
  have g: "guid_basis c =
       identity_part ym c ''q'' @ ''|'' @ identity_part ym c ''a'' @ ''|'' @
       str_of env (card_deck c) @ ''|'' @ str_relative rel"
    using h(2) by (simp add: identity_part_def fmt_optional_def)
  have m: "\<forall>key f. (key = ''q'' \<or> key = ''a'') \<and> map_of ym key = Some f \<longrightarrow>
        map_of (card_fields c) f = Some (identity_part ym c key)"
  proof (intro allI impI)
    fix key f assume a: "(key = ''q'' \<or> key = ''a'') \<and> map_of ym key = Some f"
    then have "(key, f) \<in> set ym" "key \<noteq> ''tags''" by (auto dest: map_of_SomeD)
    then have "f \<in> mapped_fields ym" by (force simp: mapped_fields_def)
    with mf have "f \<in> fst ` set (card_fields c)" by blast
    then obtain v where "map_of (card_fields c) f = Some v"
      by (metis map_of_eq_None_iff not_Some_eq)
    with a show "map_of (card_fields c) f = Some (identity_part ym c key)"
      by (simp add: identity_part_def)
  qed
  have u: "\<forall>key. (key = ''q'' \<or> key = ''a'') \<and> map_of ym key = None \<and>
        [] \<notin> fst ` set (card_fields c) \<longrightarrow> identity_part ym c key = ''None''"
    by (auto simp: identity_part_def map_of_eq_None_iff [symmetric] split: option.splits)
  from h(1) dr cb(1) own d g m u show ?thesis by blast
qed

lemma process_block_other_tags:
  assumes "safe_load env b = Some (YMap raw)"
    and "process_block env md rel dd sff model_def b = Some (c, media)"
    and "safe_load env' b = Some (YMap raw')"
    and "\<forall>k. k \<noteq> ''tags'' \<longrightarrow> map_of raw' (YStr k) = map_of raw (YStr k)"
    and "py_str env' = py_str env" "resolve env' = resolve env" "is_file env' = is_file env"
  shows "process_block env' md rel dd sff model_def b =
           Some (c\<lparr>card_tags := dict_get raw' ''tags'' (YSeq [])\<rparr>, media)"
proof -
  from process_block_Some [OF assms(2)] assms(1) obtain ym cf where
    h: "yaml_field_map model_def = Some ym"
       "field_loop env md raw ym [] [] = Populated cf media"
    by auto
  have f: "field_loop env' md raw' ym [] [] = Populated cf media"
    using field_loop_ignores_tags [OF assms(4-7)] h(2) by simp
  have s: "\<And>v. str_of env' v = str_of env v"
    using assms(5) by (simp add: str_of_def split: yaml_value.splits)
  have d: "dict_get raw' ''deck'' (YStr dd) = dict_get raw ''deck'' (YStr dd)"
    using assms(4) by (simp add: dict_get_def)
  from assms(1,2) h have
    "c = \<lparr>card_fields = (case sff of None \<Rightarrow> cf
                          | Some n \<Rightarrow> if n = [] then cf else AList.update n rel cf),
          card_tags = dict_get raw ''tags'' (YSeq []),
          card_deck = dict_get raw ''deck'' (YStr dd),
          guid_basis =
            fmt_optional (map_of (case sff of None \<Rightarrow> cf
                          | Some n \<Rightarrow> if n = [] then cf else AList.update n rel cf)
               (case map_of ym ''q'' of Some n \<Rightarrow> n | None \<Rightarrow> [])) @ ''|'' @
            fmt_optional (map_of (case sff of None \<Rightarrow> cf
                          | Some n \<Rightarrow> if n = [] then cf else AList.update n rel cf)
               (case map_of ym ''a'' of Some n \<Rightarrow> n | None \<Rightarrow> [])) @ ''|'' @
            str_of env (dict_get raw ''deck'' (YStr dd)) @ ''|'' @ rel\<rparr>"
    by (simp add: process_block_def Let_def)
  then show ?thesis
    using assms(3) h(1) f s d by (simp add: process_block_def Let_def)
qed

text \<open>
  C9. For every extracted card the tags are the block's \<open>tags\<close> entry (the empty list
  when it has none) and are carried beside the fields: the loop that fills the fields runs
  as if the schema's map had no \<open>tags\<close> key, the field that \<open>tags\<close> is mapped to gets
  no content (unless another key is mapped to it or it is the source file field), and a
  block that differs only in its \<open>tags\<close> entry yields the same fields, deck, identity
  basis and media.
\<close>

theorem tags_never_in_fields:
  assumes "safe_load env b = Some (YMap raw)"
    and "block_result env filepath root_dir model_def b = Some (c, media)"
  shows "card_tags c = (case map_of raw (YStr ''tags'') of Some t \<Rightarrow> t | None \<Rightarrow> YSeq []) \<and>
     (\<exists>ym. yaml_field_map model_def = Some ym \<and>
        field_loop env (path_parent filepath) raw ym [] [] =
        field_loop env (path_parent filepath) raw (filter (\<lambda>(k, f). k \<noteq> ''tags'') ym) [] [] \<and>
        (\<forall>t. map_of ym ''tags'' = Some t \<and> t \<notin> mapped_fields ym \<and> lower t \<noteq> ''sourcefile''
           \<longrightarrow> map_of (card_fields c) t = None)) \<and>
     (\<forall>(env' :: env) raw'.
        safe_load env' b = Some (YMap raw') \<and>
        (\<forall>k. k \<noteq> ''tags'' \<longrightarrow> map_of raw' (YStr k) = map_of raw (YStr k)) \<and>
        py_str env' = py_str env \<and> resolve env' = resolve env \<and> is_file env' = is_file env
        \<longrightarrow> block_result env' filepath root_dir model_def b =
              Some (c\<lparr>card_tags :=
                        (case map_of raw' (YStr ''tags'') of Some t \<Rightarrow> t | None \<Rightarrow> YSeq [])\<rparr>,
                    media))"
proof -
  let ?sff = "map_option field_name
               (find (\<lambda>f. lower (field_name f) = ''sourcefile'') (model_fields model_def))"
  from block_result_Some [OF assms(2)] obtain dd rel where
    dr: "calculate_deck_name root_dir filepath = Inr dd" "relative_to filepath root_dir = Inr rel"
    and p: "process_block env (path_parent filepath) (str_relative rel) dd ?sff model_def b
              = Some (c, media)" by blast
  from process_block_Some [OF p] assms(1) obtain ym where
    h: "yaml_field_map model_def = Some ym" "card_tags c = dict_get raw ''tags'' (YSeq [])"
    by auto
  have t: "card_tags c = (case map_of raw (YStr ''tags'') of Some t \<Rightarrow> t | None \<Rightarrow> YSeq [])"
    using h(2) by (simp add: dict_get_def)
  from process_block_keys [OF p] h(1) have
    k: "fst ` set (card_fields c) \<subseteq> mapped_fields ym \<union> set_option ?sff" by simp
  have n: "\<forall>t. map_of ym ''tags'' = Some t \<and> t \<notin> mapped_fields ym \<and> lower t \<noteq> ''sourcefile''
           \<longrightarrow> map_of (card_fields c) t = None"
  proof (intro allI impI)
    fix t assume a: "map_of ym ''tags'' = Some t \<and> t \<notin> mapped_fields ym \<and> lower t \<noteq> ''sourcefile''"
    have "t \<notin> set_option ?sff"
      using a source_file_field [of "model_fields model_def" t] by (cases ?sff) auto
    with a k have "t \<notin> fst ` set (card_fields c)" by blast
    then show "map_of (card_fields c) t = None" by (simp add: map_of_eq_None_iff)
  qed
  have o: "\<forall>(env' :: env) raw'.
        safe_load env' b = Some (YMap raw') \<and>
        (\<forall>k. k \<noteq> ''tags'' \<longrightarrow> map_of raw' (YStr k) = map_of raw (YStr k)) \<and>
        py_str env' = py_str env \<and> resolve env' = resolve env \<and> is_file env' = is_file env
        \<longrightarrow> block_result env' filepath root_dir model_def b =
              Some (c\<lparr>card_tags :=
                        (case map_of raw' (YStr ''tags'') of Some t \<Rightarrow> t | None \<Rightarrow> YSeq [])\<rparr>,
                    media)"
  proof (intro allI impI, elim conjE)
    fix env' :: env and raw'
    assume a: "safe_load env' b = Some (YMap raw')"
      "\<forall>k. k \<noteq> ''tags'' \<longrightarrow> map_of raw' (YStr k) = map_of raw (YStr k)"
      "py_str env' = py_str env" "resolve env' = resolve env" "is_file env' = is_file env"
    from process_block_other_tags [OF assms(1) p a] dr
    show "block_result env' filepath root_dir model_def b =
              Some (c\<lparr>card_tags :=
                        (case map_of raw' (YStr ''tags'') of Some t \<Rightarrow> t | None \<Rightarrow> YSeq [])\<rparr>,
                    media)"
      by (simp add: block_result_def dict_get_def)
  qed
  from t h(1) n o field_loop_skips_tags [of env "path_parent filepath" raw ym "[]" "[]"]
  show ?thesis by blast
qed

theorem incomplete_block_skipped_witness:
  "relative_to [''notes'', ''test.md''] [''notes''] = Inr [''test.md''] \<and>
   read_text example_env [''notes'', ''test.md''] = Some example_text \<and>
   anki_blocks example_text = [block_q1] @ block_seq # [block_no_answer, block_tagged] \<and>
   block_incomplete example_env example_model block_seq \<and>
   block_incomplete example_env example_model block_no_answer \<and>
   block_result example_env [''notes'', ''test.md''] [''notes''] example_model block_seq = None \<and>
   block_result example_env [''notes'', ''test.md''] [''notes''] example_model block_no_answer = None \<and>
   find_anki_cards_in_file example_env [''notes'', ''test.md''] [''notes''] example_model =
     Inr ([card_q1, card_q2], [])"
proof -
  have r: "relative_to [''notes'', ''test.md''] [''notes''] = Inr [''test.md'']"
    by (simp add: relative_to_def)
  have t: "read_text example_env [''notes'', ''test.md''] = Some example_text"
    by (simp add: example_env_def)
  have b1: "anki_blocks example_text = [block_q1] @ block_seq # [block_no_answer, block_tagged]"
    by code_simp
  have b2: "anki_blocks example_text = [block_q1, block_seq] @ block_no_answer # [block_tagged]"
    by code_simp
  have i1: "block_incomplete example_env example_model block_seq" by code_simp
  have i2: "block_incomplete example_env example_model block_no_answer" by code_simp
  have f: "find_anki_cards_in_file example_env [''notes'', ''test.md''] [''notes''] example_model =
             Inr ([card_q1, card_q2], [])"
    by code_simp
  from incomplete_block_skipped [OF r t b1 i1]
  have s1: "block_result example_env [''notes'', ''test.md''] [''notes''] example_model block_seq = None"
    by blast
  from incomplete_block_skipped [OF r t b2 i2]
  have s2: "block_result example_env [''notes'', ''test.md''] [''notes''] example_model
              block_no_answer = None"
    by blast
  from r t b1 i1 i2 s1 s2 f show ?thesis by blast
qed

theorem record_fields_declared_witness:
  "model_validate example_model = Inr example_model \<and>
   find_anki_cards_in_file example_env [''notes'', ''test.md''] [''notes''] example_model =
     Inr ([card_q1, card_q2], []) \<and>
   card_q1 \<in> set [card_q1, card_q2] \<and>
   fst ` set (card_fields card_q1) \<subseteq> field_name ` set (model_fields example_model) \<and>
   fst ` set (card_fields card_q1) = {''Question'', ''Answer'', ''SourceFile''}"
proof -
  have v: "model_validate example_model = Inr example_model" by code_simp
  have f: "find_anki_cards_in_file example_env [''notes'', ''test.md''] [''notes''] example_model =
             Inr ([card_q1, card_q2], [])"
    by code_simp
  have c: "card_q1 \<in> set [card_q1, card_q2]" by simp
  from record_fields_declared [OF v f c]
  have s: "fst ` set (card_fields card_q1) \<subseteq> field_name ` set (model_fields example_model)"
    by blast
  have k: "fst ` set (card_fields card_q1) = {''Question'', ''Answer'', ''SourceFile''}"
    by (simp add: card_q1_def)
  from v f c s k show ?thesis by blast
qed

theorem identity_basis_parts_witness:
  "find_anki_cards_in_file deck_env [''notes'', ''decks.md''] [''notes''] example_model =
     Inr ([card_custom, card_default], []) \<and>
   card_custom \<in> set [card_custom, card_default] \<and>
   card_default \<in> set [card_custom, card_default] \<and>
   anki_blocks (fence block_decked @ fence block_q1) = [block_decked, block_q1] \<and>
   block_result deck_env [''notes'', ''decks.md''] [''notes''] example_model block_decked =
     Some (card_custom, []) \<and>
   block_result deck_env [''notes'', ''decks.md''] [''notes''] example_model block_q1 =
     Some (card_default, []) \<and>
   calculate_deck_name [''notes''] [''notes'', ''decks.md''] = Inr ''notes'' \<and>
   safe_load deck_env block_decked =
     Some (YMap [(YStr ''q'', YStr ''Q4''), (YStr ''a'', YStr ''A4''),
                 (YStr ''deck'', YStr ''Custom'')]) \<and>
   safe_load deck_env block_q1 = Some (YMap [(YStr ''q'', YStr ''Q1''), (YStr ''a'', YStr ''A1'')]) \<and>
   card_deck card_custom = YStr ''Custom'' \<and> guid_basis card_custom = ''Q4|A4|Custom|decks.md'' \<and>
   card_deck card_default = YStr ''notes'' \<and> guid_basis card_default = ''Q1|A1|notes|decks.md'' \<and>
   (\<exists>raw. safe_load deck_env block_decked = Some (YMap raw) \<and>
      card_deck card_custom = (case map_of raw (YStr ''deck'') of Some d \<Rightarrow> d | None \<Rightarrow> YStr ''notes'') \<and>
      map_of raw (YStr ''deck'') = Some (YStr ''Custom'')) \<and>
   (\<exists>raw. safe_load deck_env block_q1 = Some (YMap raw) \<and>
      card_deck card_default = (case map_of raw (YStr ''deck'') of Some d \<Rightarrow> d | None \<Rightarrow> YStr ''notes'') \<and>
      map_of raw (YStr ''deck'') = None) \<and>
   (\<exists>ym rel. yaml_field_map example_model = Some ym \<and>
      relative_to [''notes'', ''decks.md''] [''notes''] = Inr rel \<and>
      guid_basis card_custom =
        identity_part ym card_custom ''q'' @ ''|'' @ identity_part ym card_custom ''a'' @ ''|'' @
        str_of deck_env (card_deck card_custom) @ ''|'' @ str_relative rel)"
proof -
  let ?find = "find_anki_cards_in_file deck_env [''notes'', ''decks.md''] [''notes''] example_model"
  let ?res = "block_result deck_env [''notes'', ''decks.md''] [''notes''] example_model"
  have f: "?find = Inr ([card_custom, card_default], [])" by code_simp
  have c1: "card_custom \<in> set [card_custom, card_default]" by simp
  have c2: "card_default \<in> set [card_custom, card_default]" by simp
  have bl: "anki_blocks (fence block_decked @ fence block_q1) = [block_decked, block_q1]"
    by code_simp
  have b1: "?res block_decked = Some (card_custom, [])" by code_simp
  have b2: "?res block_q1 = Some (card_default, [])" by code_simp
  have dn: "calculate_deck_name [''notes''] [''notes'', ''decks.md''] = Inr ''notes''"
    by code_simp
  have l1: "safe_load deck_env block_decked =
     Some (YMap [(YStr ''q'', YStr ''Q4''), (YStr ''a'', YStr ''A4''),
                 (YStr ''deck'', YStr ''Custom'')])" by code_simp
  have l2: "safe_load deck_env block_q1 =
     Some (YMap [(YStr ''q'', YStr ''Q1''), (YStr ''a'', YStr ''A1'')])" by code_simp
  have v: "card_deck card_custom = YStr ''Custom''" "guid_basis card_custom = ''Q4|A4|Custom|decks.md''"
    "card_deck card_default = YStr ''notes''" "guid_basis card_default = ''Q1|A1|notes|decks.md''"
    by (simp_all add: card_custom_def card_default_def)
  from identity_basis_parts [OF f c1] obtain ym rel dd content where
    t1: "yaml_field_map example_model = Some ym \<and>
         relative_to [''notes'', ''decks.md''] [''notes''] = Inr rel \<and>
         calculate_deck_name [''notes''] [''notes'', ''decks.md''] = Inr dd \<and>
         read_text deck_env [''notes'', ''decks.md''] = Some content \<and>
         (\<exists>b m. b \<in> set (anki_blocks content) \<and> ?res b = Some (card_custom, m)) \<and>
         (\<forall>b m. ?res b = Some (card_custom, m) \<longrightarrow>
            (\<exists>raw. safe_load deck_env b = Some (YMap raw) \<and>
               card_deck card_custom =
                 (case map_of raw (YStr ''deck'') of Some d \<Rightarrow> d | None \<Rightarrow> YStr dd))) \<and>
         guid_basis card_custom =
           identity_part ym card_custom ''q'' @ ''|'' @ identity_part ym card_custom ''a'' @ ''|'' @
           str_of deck_env (card_deck card_custom) @ ''|'' @ str_relative rel \<and>
         (\<forall>key f. (key = ''q'' \<or> key = ''a'') \<and> map_of ym key = Some f \<longrightarrow>
            map_of (card_fields card_custom) f = Some (identity_part ym card_custom key)) \<and>
         (\<forall>key. (key = ''q'' \<or> key = ''a'') \<and> map_of ym key = None \<and>
            [] \<notin> fst ` set (card_fields card_custom) \<longrightarrow> identity_part ym card_custom key = ''None'')"
    by (elim exE)
  from t1 have t1a: "yaml_field_map example_model = Some ym" by (elim conjE)
  from t1 have t1b: "relative_to [''notes'', ''decks.md''] [''notes''] = Inr rel" by (elim conjE)
  from t1 have t1c: "calculate_deck_name [''notes''] [''notes'', ''decks.md''] = Inr dd"
    by (elim conjE)
  from t1 have t1d: "\<forall>b m. ?res b = Some (card_custom, m) \<longrightarrow>
            (\<exists>raw. safe_load deck_env b = Some (YMap raw) \<and>
               card_deck card_custom =
                 (case map_of raw (YStr ''deck'') of Some d \<Rightarrow> d | None \<Rightarrow> YStr dd))"
    by (elim conjE)
  from t1 have t1e: "guid_basis card_custom =
           identity_part ym card_custom ''q'' @ ''|'' @ identity_part ym card_custom ''a'' @ ''|'' @
           str_of deck_env (card_deck card_custom) @ ''|'' @ str_relative rel"
    by (elim conjE)
  from t1c dn have dd1: "dd = ''notes''" by simp
  from t1d [unfolded dd1, rule_format, OF b1]
  have "\<exists>raw. safe_load deck_env block_decked = Some (YMap raw) \<and>
      card_deck card_custom = (case map_of raw (YStr ''deck'') of Some d \<Rightarrow> d | None \<Rightarrow> YStr ''notes'')" .
  with l1 have e1: "\<exists>raw. safe_load deck_env block_decked = Some (YMap raw) \<and>
      card_deck card_custom = (case map_of raw (YStr ''deck'') of Some d \<Rightarrow> d | None \<Rightarrow> YStr ''notes'') \<and>
      map_of raw (YStr ''deck'') = Some (YStr ''Custom'')"
    by auto
  from identity_basis_parts [OF f c2] obtain ym' rel' dd' content' where
    t2: "yaml_field_map example_model = Some ym' \<and>
         relative_to [''notes'', ''decks.md''] [''notes''] = Inr rel' \<and>
         calculate_deck_name [''notes''] [''notes'', ''decks.md''] = Inr dd' \<and>
         read_text deck_env [''notes'', ''decks.md''] = Some content' \<and>
         (\<exists>b m. b \<in> set (anki_blocks content') \<and> ?res b = Some (card_default, m)) \<and>
         (\<forall>b m. ?res b = Some (card_default, m) \<longrightarrow>
            (\<exists>raw. safe_load deck_env b = Some (YMap raw) \<and>
               card_deck card_default =
                 (case map_of raw (YStr ''deck'') of Some d \<Rightarrow> d | None \<Rightarrow> YStr dd'))) \<and>
         guid_basis card_default =
           identity_part ym' card_default ''q'' @ ''|'' @ identity_part ym' card_default ''a'' @ ''|'' @
           str_of deck_env (card_deck card_default) @ ''|'' @ str_relative rel' \<and>
         (\<forall>key f. (key = ''q'' \<or> key = ''a'') \<and> map_of ym' key = Some f \<longrightarrow>
            map_of (card_fields card_default) f = Some (identity_part ym' card_default key)) \<and>
         (\<forall>key. (key = ''q'' \<or> key = ''a'') \<and> map_of ym' key = None \<and>
            [] \<notin> fst ` set (card_fields card_default) \<longrightarrow> identity_part ym' card_default key = ''None'')"
    by (elim exE)
  from t2 have t2c: "calculate_deck_name [''notes''] [''notes'', ''decks.md''] = Inr dd'"
    by (elim conjE)
  from t2 have t2d: "\<forall>b m. ?res b = Some (card_default, m) \<longrightarrow>
            (\<exists>raw. safe_load deck_env b = Some (YMap raw) \<and>
               card_deck card_default =
                 (case map_of raw (YStr ''deck'') of Some d \<Rightarrow> d | None \<Rightarrow> YStr dd'))"
    by (elim conjE)
  from t2c dn have dd2: "dd' = ''notes''" by simp
  from t2d [unfolded dd2, rule_format, OF b2]
  have "\<exists>raw. safe_load deck_env block_q1 = Some (YMap raw) \<and>
      card_deck card_default = (case map_of raw (YStr ''deck'') of Some d \<Rightarrow> d | None \<Rightarrow> YStr ''notes'')" .
  with l2 have e2: "\<exists>raw. safe_load deck_env block_q1 = Some (YMap raw) \<and>
      card_deck card_default = (case map_of raw (YStr ''deck'') of Some d \<Rightarrow> d | None \<Rightarrow> YStr ''notes'') \<and>
      map_of raw (YStr ''deck'') = None"
    by auto
  from t1a t1b t1e have e3: "\<exists>ym rel. yaml_field_map example_model = Some ym \<and>
      relative_to [''notes'', ''decks.md''] [''notes''] = Inr rel \<and>
      guid_basis card_custom =
        identity_part ym card_custom ''q'' @ ''|'' @ identity_part ym card_custom ''a'' @ ''|'' @
        str_of deck_env (card_deck card_custom) @ ''|'' @ str_relative rel"
    by blast
  from f c1 c2 bl b1 b2 dn l1 l2 v e1 e2 e3 show ?thesis by (intro conjI)
qed

text \<open>
  C1 as stated fails: a valid schema may leave the key \<open>q\<close> unmapped, and then the identity
  basis starts with the text \<open>None\<close>, not with the empty string.
\<close>

theorem unmapped_key_prints_None:
  "model_validate unmapped_model = Inr unmapped_model \<and>
   map_of [(''front'', ''Front''), (''back'', ''Back'')] ''q'' = None \<and>
   yaml_field_map unmapped_model = Some [(''front'', ''Front''), (''back'', ''Back'')] \<and>
   find_anki_cards_in_file example_env [''notes'', ''cards.md''] [''notes''] unmapped_model =
     Inr ([\<lparr>card_fields = [(''Front'', ''F''), (''Back'', ''B'')], card_tags = YSeq [],
            card_deck = YStr ''notes'', guid_basis = ''None|None|notes|cards.md''\<rparr>], []) \<and>
   ''None|None|notes|cards.md'' \<noteq> [] @ ''|'' @ [] @ ''|'' @ ''notes'' @ ''|'' @ ''cards.md''"
  by code_simp

theorem tags_never_in_fields_witness:
  "safe_load example_env block_tagged =
     Some (YMap [(YStr ''q'', YStr ''Q2''), (YStr ''a'', YStr ''A2''),
                 (YStr ''tags'', YSeq [YStr ''t1''])]) \<and>
   map_of [(''q'', ''Question''), (''a'', ''Answer''), (''tags'', ''Tags'')] ''tags'' = Some ''Tags'' \<and>
   block_result example_env [''notes'', ''test.md''] [''notes''] tags_mapped_model block_tagged =
     Some (\<lparr>card_fields = [(''Question'', ''Q2''), (''Answer'', ''A2'')],
            card_tags = YSeq [YStr ''t1''], card_deck = YStr ''notes'',
            guid_basis = ''Q2|A2|notes|test.md''\<rparr>, []) \<and>
   card_tags \<lparr>card_fields = [(''Question'', ''Q2''), (''Answer'', ''A2'')],
              card_tags = YSeq [YStr ''t1''], card_deck = YStr ''notes'',
              guid_basis = ''Q2|A2|notes|test.md''\<rparr> =
     (case map_of [(YStr ''q'', YStr ''Q2''), (YStr ''a'', YStr ''A2''),
                   (YStr ''tags'', YSeq [YStr ''t1''])] (YStr ''tags'') of
        Some t \<Rightarrow> t | None \<Rightarrow> YSeq [])"
proof -
  let ?raw = "[(YStr ''q'', YStr ''Q2''), (YStr ''a'', YStr ''A2''),
               (YStr ''tags'', YSeq [YStr ''t1''])]"
  let ?c = "\<lparr>card_fields = [(''Question'', ''Q2''), (''Answer'', ''A2'')],
             card_tags = YSeq [YStr ''t1''], card_deck = YStr ''notes'',
             guid_basis = ''Q2|A2|notes|test.md''\<rparr>"
  have l: "safe_load example_env block_tagged = Some (YMap ?raw)" by code_simp
  have m: "map_of [(''q'', ''Question''), (''a'', ''Answer''), (''tags'', ''Tags'')] ''tags'' = Some ''Tags''"
    by simp
  have b: "block_result example_env [''notes'', ''test.md''] [''notes''] tags_mapped_model
             block_tagged = Some (?c, [])"
    by code_simp
  from tags_never_in_fields [OF l b]
  have "card_tags ?c = (case map_of ?raw (YStr ''tags'') of Some t \<Rightarrow> t | None \<Rightarrow> YSeq [])"
    by blast
  with l m b show ?thesis by blast
qed

subsection \<open>Image resolution\<close>

text \<open>
  C5. The pattern finds image tags whatever the case of their letters, but the tag is
  rewritten by an exact replacement of the text \<open>src="..."\<close>. For a tag that spells the
  attribute \<open>SRC\<close> and names an existing local file, the resolved path is recorded as media
  while the tag is returned as it was, its source not rewritten to the base name; the same
  tag with \<open>src\<close> is rewritten. A tag with a remote source and a tag whose file does not
  exist are returned unchanged and record nothing.
\<close>

theorem uppercase_src_not_rewritten:
  "process_field_for_images image_env (img_tag ''SRC'' ''images/pic.png'') [''notes''] =
     Some (img_tag ''SRC'' ''images/pic.png'', [''/notes/images/pic.png''])
   \<and> process_field_for_images image_env (img_tag ''src'' ''images/pic.png'') [''notes''] =
     Some (img_tag ''src'' ''pic.png'', [''/notes/images/pic.png''])
   \<and> process_field_for_images image_env (img_tag ''src'' ''https://example.com/image.png'') [''notes''] =
     Some (img_tag ''src'' ''https://example.com/image.png'', [])
   \<and> process_field_for_images image_env (img_tag ''src'' ''missing.png'') [''notes''] =
     Some (img_tag ''src'' ''missing.png'', [])"
  by code_simp

end
